theory Spec2Isabelle
  imports Complex_Main "HOL-Library.Multiset"
begin

section \<open>EuroDreams: the seeded number sampler\<close>

text \<open>
  The development follows \<^verbatim>\<open>EuroDreams.py\<close>. The script computes with three libraries whose
  code is not part of the repository: Python's \<^verbatim>\<open>random\<close> module, \<^verbatim>\<open>numpy\<close> and
  \<^verbatim>\<open>scipy.integrate.odeint\<close>. A library routine that the script only calls is a parameter
  of the model (the generator's primitives, the ODE solver, the hash of the weather token);
  the thin library wrappers the script goes through (\<^verbatim>\<open>random.sample\<close>, \<^verbatim>\<open>random.randint\<close>,
  \<^verbatim>\<open>numpy.arange\<close>) are written out after the library's own code and documentation.

  Every Python exception that the modelled code can raise is a value of the type below.
\<close>

datatype error =
    IndexError          \<comment> \<open>subscript out of range\<close>
  | ValueError          \<comment> \<open>\<^verbatim>\<open>random.sample\<close>: sample larger than population; \<^verbatim>\<open>randrange\<close>: empty range;
                             \<^verbatim>\<open>numpy.arange\<close>: maximum allowed size exceeded\<close>
  | ZeroDivisionError   \<comment> \<open>\<^verbatim>\<open>numpy.arange\<close> with a zero step\<close>
  | FloatToIntError     \<comment> \<open>\<^verbatim>\<open>int(x)\<close> of a NaN (ValueError) or of an infinity (OverflowError)\<close>
  | SolverError         \<comment> \<open>any exception raised inside \<^verbatim>\<open>scipy.integrate.odeint\<close>\<close>

subsection \<open>The pseudo-random generator\<close>

text \<open>
  The module-level generator of \<^verbatim>\<open>random\<close> is a hidden global object. Its state is the type
  \<open>'s\<close>; the two primitives the script reaches are
  \<^item> \<^verbatim>\<open>random.seed(a)\<close> for an integer \<open>a\<close>, which overwrites the whole state with one
    computed from \<open>a\<close> alone, and
  \<^item> \<^verbatim>\<open>_randbelow(n)\<close>, which returns an integer and advances the state.
\<close>

record 's prng =
  rng_seed :: "int \<Rightarrow> 's"
  rng_randbelow :: "nat \<Rightarrow> 's \<Rightarrow> nat \<times> 's"

text \<open>The documented contract of \<^verbatim>\<open>_randbelow\<close>: for \<open>n > 0\<close> the result lies in \<open>[0, n)\<close>.\<close>

definition randbelow_ok :: "'s prng \<Rightarrow> bool" where
  "randbelow_ok r \<longleftrightarrow> (\<forall>n s. 0 < n \<longrightarrow> fst (rng_randbelow r n s) < n)"

text \<open>
  \<^verbatim>\<open>random.sample(population, k)\<close>, the branch taken when the population is no longer than
  \<^verbatim>\<open>setsize\<close>:
  \<^verbatim>\<open>
      pool = list(population)
      for i in range(k):
          j = randbelow(n - i)
          result[i] = pool[j]
          pool[j] = pool[n - i - 1]
  \<close>
  The loop counter \<open>i\<close> runs upwards; the extra argument counts the iterations that remain.
  The slots \<open>result[0..i-1]\<close> filled so far are the list \<open>result\<close>, which grows at its end.
  A subscript \<open>j\<close> outside the pool raises IndexError.
\<close>

fun sample_loop ::
  "(nat \<Rightarrow> 's \<Rightarrow> nat \<times> 's) \<Rightarrow> nat \<Rightarrow> nat \<Rightarrow> nat \<Rightarrow> 'a list \<Rightarrow> 'a list \<Rightarrow> 's \<Rightarrow> error + ('a list \<times> 's)"
where
  "sample_loop rb n i 0 pool result s = Inr (result, s)"
| "sample_loop rb n i (Suc m) pool result s =
     (case rb (n - i) s of (j, s') \<Rightarrow>
        if j < length pool
        then sample_loop rb n (Suc i) m (pool[j := pool ! (n - i - 1)]) (result @ [pool ! j]) s'
        else Inl IndexError)"

text \<open>
  \<^verbatim>\<open>setsize = 21; if k > 5: setsize += 4 ** _ceil(_log(k * 3, 4))\<close>: the bound below which
  \<^verbatim>\<open>random.sample\<close> uses the pool loop above.
\<close>

definition setsize :: "nat \<Rightarrow> nat" where
  "setsize k = 21 + (if 5 < k then 4 ^ nat \<lceil>log 4 (real (k * 3))\<rceil> else 0)"

text \<open>
  \<^verbatim>\<open>random.sample\<close> for a population with \<open>n \<le> setsize k\<close> (the script's only call has
  \<open>n = 40\<close> and \<open>k = 6\<close>, see \<open>sample_branch\<close> below). A \<open>k\<close> above \<open>n\<close> raises ValueError.
\<close>

definition sample :: "'s prng \<Rightarrow> 'a list \<Rightarrow> nat \<Rightarrow> 's \<Rightarrow> error + ('a list \<times> 's)" where
  "sample r population k s =
     (let n = length population in
      if \<not> k \<le> n then Inl ValueError
      else sample_loop (rng_randbelow r) n 0 k population [] s)"

text \<open>
  \<^verbatim>\<open>random.randrange(start, stop)\<close> and \<^verbatim>\<open>random.randint(a, b) = randrange(a, b + 1)\<close>:
  \<^verbatim>\<open>
      width = stop - start
      if width > 0: return start + self._randbelow(width)
      raise ValueError
  \<close>
\<close>

definition randrange :: "'s prng \<Rightarrow> int \<Rightarrow> int \<Rightarrow> 's \<Rightarrow> error + (int \<times> 's)" where
  "randrange r start stop s =
     (let width = stop - start in
      if 0 < width
      then (case rng_randbelow r (nat width) s of (j, s') \<Rightarrow> Inr (start + int j, s'))
      else Inl ValueError)"

definition randint :: "'s prng \<Rightarrow> int \<Rightarrow> int \<Rightarrow> 's \<Rightarrow> error + (int \<times> 's)" where
  "randint r a b s = randrange r a (b + 1) s"

subsection \<open>The Number Sampler\<close>

text \<open>
  \<^verbatim>\<open>
  def generate_eurodreams_numbers(seed):
      random.seed(seed)
      main_numbers = sorted(random.sample(range(1, 41), 6))
      bonus_number = random.randint(1, 5)
      return main_numbers, [bonus_number]
  \<close>
  The function takes the state \<open>gs\<close> of the global generator as it finds it and returns,
  next to its result, the state it leaves behind.
\<close>

definition generate_eurodreams_numbers ::
  "'s prng \<Rightarrow> 's \<Rightarrow> int \<Rightarrow> error + ((int list \<times> int list) \<times> 's)"
where
  "generate_eurodreams_numbers r gs seed =
     (let s0 = rng_seed r seed in
      case sample r [1..40] 6 s0 of
        Inl e \<Rightarrow> Inl e
      | Inr (picked, s1) \<Rightarrow>
          let main_numbers = sort picked in
          (case randint r 1 5 s1 of
             Inl e \<Rightarrow> Inl e
           | Inr (bonus_number, s2) \<Rightarrow> Inr ((main_numbers, [bonus_number]), s2)))"

text \<open>
  The calls of \<^verbatim>\<open>_randbelow\<close> in program order: \<open>run_randbelow rb ns s\<close> calls \<open>rb\<close> once for
  each bound of \<open>ns\<close>, threading the state, and returns the state after the last call.
\<close>

fun run_randbelow :: "(nat \<Rightarrow> 's \<Rightarrow> nat \<times> 's) \<Rightarrow> nat list \<Rightarrow> 's \<Rightarrow> 's" where
  "run_randbelow rb [] s = s"
| "run_randbelow rb (n # ns) s = run_randbelow rb ns (snd (rb n s))"

text \<open>
  A small linear congruential generator, used to run the sampler on concrete seeds. Like
  \<^verbatim>\<open>random.seed\<close>, it seeds from the absolute value of the integer.
\<close>

definition lcg_prng :: "int prng" where
  "lcg_prng = \<lparr> rng_seed = (\<lambda>a. \<bar>a\<bar>),
                rng_randbelow =
                  (\<lambda>n s. (nat (s mod int n), (1103515245 * s + 12345) mod 2147483648)) \<rparr>"

section \<open>EuroDreams: the double pendulum and the seed\<close>

subsection \<open>Floating-point values\<close>

text \<open>
  A finite double is taken as the real number it denotes. The non-finite doubles, NaN and
  the two infinities, are the single value \<open>None\<close>: numpy does not raise on a division by
  zero, it returns one of them, and every operation of the script sends a non-finite operand
  to a non-finite result.

  Rounding is modelled where the shape of the result depends on it, which is the time grid:
  its length is taken from a rounded quotient and its times are rounded products. The
  right-hand side of the equations of motion and the initial state stay in exact arithmetic;
  they only feed the solver, which is a parameter.
\<close>

type_synonym npfloat = "real option"

text \<open>
  Rounding to the nearest double, ties to the even significand. The doubles around \<open>x\<close> are
  the multiples of \<open>pow2 e\<close> with \<open>e = \<lfloor>log 2 \<bar>x\<bar>\<rfloor> - 52\<close>, and the multiples of
  \<open>pow2 (- 1074)\<close> in the subnormal range. The result is a real number: a magnitude of
  \<open>2 ^ 1024\<close> or more stands for an overflow to infinity.
\<close>

definition round_half_even :: "real \<Rightarrow> int" where
  "round_half_even m =
     (let f = \<lfloor>m\<rfloor>; r = m - of_int f in
      if r < 1 / 2 then f
      else if 1 / 2 < r then f + 1
      else if even f then f else f + 1)"

definition pow2 :: "int \<Rightarrow> real" where
  "pow2 e = (if 0 \<le> e then 2 ^ nat e else 1 / 2 ^ nat (- e))"

definition double_exponent :: "real \<Rightarrow> int" where
  "double_exponent x = max (\<lfloor>log 2 \<bar>x\<bar>\<rfloor> - 52) (- 1074)"

definition round_double :: "real \<Rightarrow> real" where
  "round_double x =
     (if x = 0 then 0
      else real_of_int (round_half_even (x / pow2 (double_exponent x))) * pow2 (double_exponent x))"

text \<open>The real numbers that are finite doubles.\<close>

definition is_double :: "real \<Rightarrow> bool" where
  "is_double x \<longleftrightarrow> round_double x = x \<and> \<bar>x\<bar> < 2 ^ 1024"

text \<open>\<^verbatim>\<open>a / b\<close> on numpy floats, for a divisor that is finite.\<close>

definition np_div :: "npfloat \<Rightarrow> real \<Rightarrow> npfloat" where
  "np_div a b = (case a of None \<Rightarrow> None | Some x \<Rightarrow> if b = 0 then None else Some (x / b))"

text \<open>
  \<^verbatim>\<open>int(x)\<close> of a finite float truncates towards zero.
\<close>

definition py_int :: "real \<Rightarrow> int" where
  "py_int x = (if 0 \<le> x then \<lfloor>x\<rfloor> else \<lceil>x\<rceil>)"

subsection \<open>The Trajectory Integrator\<close>

text \<open>The gravitational constant, \<^verbatim>\<open>g = 9.81\<close>.\<close>

definition g :: real where
  "g = 981 / 100"

text \<open>A pendulum state \<^verbatim>\<open>[theta1, z1, theta2, z2]\<close>.\<close>

type_synonym pstate = "npfloat \<times> npfloat \<times> npfloat \<times> npfloat"

text \<open>
  \<^verbatim>\<open>
  def deriv(y, t, L1, L2, m1, m2):
      theta1, z1, theta2, z2 = y
      c, s = np.cos(theta1 - theta2), np.sin(theta1 - theta2)
      theta1_dot = z1
      z1_dot = (m2 * g * np.sin(theta2) * c - m2 * s * (L1 * z1**2 * c + L2 * z2**2) -
                (m1 + m2) * g * np.sin(theta1)) / L1 / (m1 + m2 * s**2)
      theta2_dot = z2
      z2_dot = ((m1 + m2) * (L1 * z1**2 * s - g * np.sin(theta2) + g * np.sin(theta1) * c) +
                m2 * L2 * z2**2 * s * c) / L2 / (m1 + m2 * s**2)
      return theta1_dot, z1_dot, theta2_dot, z2_dot
  \<close>
  Both accelerations read all four components, so one non-finite component makes both
  non-finite; the two velocities are passed through as they are.
\<close>

fun deriv :: "pstate \<Rightarrow> real \<Rightarrow> real \<Rightarrow> real \<Rightarrow> real \<Rightarrow> real \<Rightarrow> pstate" where
  "deriv (Some theta1, Some z1, Some theta2, Some z2) t L1 L2 m1 m2 =
     (let c = cos (theta1 - theta2); s = sin (theta1 - theta2);
          theta1_dot = Some z1;
          z1_dot = np_div (np_div (Some (m2 * g * sin theta2 * c
                                         - m2 * s * (L1 * z1\<^sup>2 * c + L2 * z2\<^sup>2)
                                         - (m1 + m2) * g * sin theta1)) L1)
                          (m1 + m2 * s\<^sup>2);
          theta2_dot = Some z2;
          z2_dot = np_div (np_div (Some ((m1 + m2) * (L1 * z1\<^sup>2 * s - g * sin theta2 + g * sin theta1 * c)
                                         + m2 * L2 * z2\<^sup>2 * s * c)) L2)
                          (m1 + m2 * s\<^sup>2)
      in (theta1_dot, z1_dot, theta2_dot, z2_dot))"
| "deriv (theta1, z1, theta2, z2) t L1 L2 m1 m2 = (z1, None, z2, None)"

text \<open>
  \<^verbatim>\<open>numpy.arange(start, stop, step)\<close> on floats. The length is computed first:
  \<^verbatim>\<open>
      next = stop - start
      val = next / step                  # Python float division: raises on a zero step
      len = ceil(val)                    # OverflowError outside the range of a signed 64-bit integer
      if val == 0 and next != 0:         # the quotient underflowed
          len = 0 if signbit(val) else 1
  \<close>
  The differences and the quotient are rounded to doubles.
\<close>

definition arange_length :: "real \<Rightarrow> real \<Rightarrow> real \<Rightarrow> int" where
  "arange_length start stop step =
     (let nxt = round_double (stop - start);
          val = round_double (nxt / step)
      in if val = 0 \<and> nxt \<noteq> 0 then (if nxt / step < 0 then 0 else 1) else \<lceil>val\<rceil>)"

text \<open>
  A length outside the 64-bit range, and a length of \<open>2 ^ 60\<close> doubles or more, whose size in
  bytes is outside it, raise ValueError; a length that is not positive gives the empty
  array. Otherwise the array is filled:
  \<^verbatim>\<open>
      buffer[0] = start
      buffer[1] = start + step
      delta = buffer[1] - buffer[0]
      for i in 2 .. len - 1: buffer[i] = start + i * delta
  \<close>
  with the counter \<open>i\<close> converted to a double and every operation rounded. Running out of
  memory while the array is allocated is not modelled.
\<close>

definition arange :: "real \<Rightarrow> real \<Rightarrow> real \<Rightarrow> error + real list" where
  "arange start stop step =
     (if step = 0 then Inl ZeroDivisionError
      else let len = arange_length start stop step in
           if 2 ^ 60 \<le> len \<or> len < - (2 ^ 63) then Inl ValueError
           else if len \<le> 0 then Inr []
           else let second = round_double (start + step);
                    delta = round_double (second - start)
                in Inr (map (\<lambda>i. if i = 0 then start
                                 else if i = 1 then second
                                 else round_double (start + round_double (round_double (real i) * delta)))
                            [0..<nat len]))"

text \<open>
  The time at index \<open>i\<close> of \<^verbatim>\<open>numpy.arange(0, tmax, dt)\<close> for a step that is a double: 0,
  then \<open>dt\<close>, then the rounded products (see \<open>arange_grid\<close> below).
\<close>

definition grid_time :: "real \<Rightarrow> nat \<Rightarrow> real" where
  "grid_time dt i =
     (if i = 0 then 0
      else if i = 1 then dt
      else round_double (round_double (round_double (real i) * dt)))"

text \<open>
  \<^verbatim>\<open>scipy.integrate.odeint(func, y0, t, args)\<close> is a parameter: it takes the right-hand side,
  the initial state and the time grid, and returns the array of states, one row per time, or
  raises. It is a function of its arguments: a call does not depend on earlier calls. Its
  documented contract is the shape of the result: on a non-empty grid whose times do not
  decrease it returns \<open>len(t)\<close> rows (a grid that is not monotonic is refused).
\<close>

type_synonym odeint = "(pstate \<Rightarrow> real \<Rightarrow> pstate) \<Rightarrow> pstate \<Rightarrow> real list \<Rightarrow> error + pstate list"

definition odeint_contract :: "odeint \<Rightarrow> bool" where
  "odeint_contract od \<longleftrightarrow>
     (\<forall>f y0 ts. ts \<noteq> [] \<and> sorted ts \<longrightarrow>
        (\<exists>sol. od f y0 ts = Inr sol \<and> length sol = length ts))"

text \<open>
  \<^verbatim>\<open>
  def simulate_double_pendulum(L1, L2, m1, m2, tmax, dt, y0):
      t = np.arange(0, tmax, dt)
      sol = odeint(deriv, y0, t, args=(L1, L2, m1, m2))
      theta1, theta2 = sol[:, 0], sol[:, 2]
      return theta1, theta2
  \<close>
\<close>

definition simulate_double_pendulum ::
  "odeint \<Rightarrow> real \<Rightarrow> real \<Rightarrow> real \<Rightarrow> real \<Rightarrow> real \<Rightarrow> real \<Rightarrow> pstate \<Rightarrow> error + (npfloat list \<times> npfloat list)"
where
  "simulate_double_pendulum od L1 L2 m1 m2 tmax dt y0 =
     (case arange 0 tmax dt of
        Inl e \<Rightarrow> Inl e
      | Inr t \<Rightarrow>
          (case od (\<lambda>y t. deriv y t L1 L2 m1 m2) y0 t of
             Inl e \<Rightarrow> Inl e
           | Inr sol \<Rightarrow>
               let theta1 = map fst sol;
                   theta2 = map (\<lambda>row. fst (snd (snd row))) sol
               in Inr (theta1, theta2)))"

subsection \<open>The Chaos Extractor\<close>

text \<open>
  \<^verbatim>\<open>
  def get_chaotic_value_from_pendulum(L1=1.0, L2=1.0, m1=1.0, m2=1.0, tmax=10, dt=0.01,
                                      y0=[np.pi - 0.1, 0.0, np.pi - 0.2, 0.0]):
      _, theta2 = simulate_double_pendulum(L1, L2, m1, m2, tmax, dt, y0)
      chaotic_value = theta2[-1]
      return chaotic_value
  \<close>
  The subscript \<^verbatim>\<open>[-1]\<close> raises IndexError on an empty array.
\<close>

definition get_chaotic_value_from_pendulum ::
  "odeint \<Rightarrow> real \<Rightarrow> real \<Rightarrow> real \<Rightarrow> real \<Rightarrow> real \<Rightarrow> real \<Rightarrow> pstate \<Rightarrow> error + npfloat"
where
  "get_chaotic_value_from_pendulum od L1 L2 m1 m2 tmax dt y0 =
     (case simulate_double_pendulum od L1 L2 m1 m2 tmax dt y0 of
        Inl e \<Rightarrow> Inl e
      | Inr (theta1, theta2) \<Rightarrow>
          if theta2 = [] then Inl IndexError else Inr (last theta2))"

text \<open>
  The default initial state, the double that the literal \<^verbatim>\<open>0.01\<close> denotes, and the call
  with every argument left at its default.
\<close>

definition default_y0 :: pstate where
  "default_y0 = (Some (pi - 1 / 10), Some 0, Some (pi - 2 / 10), Some 0)"

definition dt_default :: real where
  "dt_default = 5764607523034235 / 2 ^ 59"

definition get_chaotic_value_default :: "odeint \<Rightarrow> error + npfloat" where
  "get_chaotic_value_default od =
     get_chaotic_value_from_pendulum od 1 1 1 1 10 dt_default default_y0"

subsection \<open>The state of a run\<close>

text \<open>
  Two mutable objects of the module outlive a call: the global generator of \<^verbatim>\<open>random\<close>, and
  the list that the \<^verbatim>\<open>def\<close> statement of \<open>get_chaotic_value_from_pendulum\<close> evaluates once
  for the default of \<open>y0\<close> and hands to every call that leaves \<open>y0\<close> out. The global \<open>g\<close> is
  bound once, when the module is loaded, and no function assigns to it: it is the constant
  \<open>g\<close> above.
\<close>

record 's process =
  generator :: 's
  y0_object :: pstate

text \<open>The state after the module is loaded; the generator is in whatever state it starts in.\<close>

definition initial_process :: "'s \<Rightarrow> 's process" where
  "initial_process gs = \<lparr> generator = gs, y0_object = default_y0 \<rparr>"

text \<open>
  The call \<^verbatim>\<open>get_chaotic_value_from_pendulum()\<close> in a state of the run: \<open>y0\<close> is the shared
  list as it is at the time of the call; the call writes nothing.
\<close>

definition get_chaotic_value_call :: "odeint \<Rightarrow> 's process \<Rightarrow> (error + npfloat) \<times> 's process" where
  "get_chaotic_value_call od st =
     (get_chaotic_value_from_pendulum od 1 1 1 1 10 dt_default (y0_object st), st)"

text \<open>
  One call of a function of the module, as a step on the state of the run.
  \<open>simulate_double_pendulum\<close>, \<open>get_chaotic_value_from_pendulum\<close> and \<open>create_combined_seed\<close>
  assign to no global and to no element of \<open>y0\<close>. \<open>generate_eurodreams_numbers\<close> writes the
  generator: it leaves the state that its model returns or, when it raises, some state.
\<close>

inductive step :: "'s prng \<Rightarrow> 's process \<Rightarrow> 's process \<Rightarrow> bool" for r :: "'s prng" where
  reads: "step r st st"
| draws: "generate_eurodreams_numbers r (generator st) seed = Inr (res, gs') \<Longrightarrow>
          step r st (st\<lparr>generator := gs'\<rparr>)"
| draw_raises: "generate_eurodreams_numbers r (generator st) seed = Inl e \<Longrightarrow>
          step r st (st\<lparr>generator := gs'\<rparr>)"

subsection \<open>The Seed Combiner\<close>

text \<open>
  \<^verbatim>\<open>
  def create_combined_seed(current_time_seed, weather_seed):
      chaotic_value = get_chaotic_value_from_pendulum()
      combined_seed = hash(weather_seed) + current_time_seed + int(abs(chaotic_value) * 1e6)
      return combined_seed
  \<close>
  The builtin \<^verbatim>\<open>hash\<close> is the parameter \<open>h\<close>: a function of the token within one process.
  \<^verbatim>\<open>int\<close> raises on a non-finite float.
\<close>

definition create_combined_seed :: "('w \<Rightarrow> int) \<Rightarrow> odeint \<Rightarrow> int \<Rightarrow> 'w \<Rightarrow> error + int" where
  "create_combined_seed h od current_time_seed weather_seed =
     (case get_chaotic_value_default od of
        Inl e \<Rightarrow> Inl e
      | Inr chaotic_value \<Rightarrow>
          (case chaotic_value of
             None \<Rightarrow> Inl FloatToIntError
           | Some v \<Rightarrow> Inr (h weather_seed + current_time_seed + py_int (\<bar>v\<bar> * 1000000))))"

subsection \<open>The seeds of the main program\<close>

text \<open>
  The main program reads the clock once, into \<open>base\<close>, and the weather once, into
  \<open>weather_seed\<close>:
  \<^verbatim>\<open>
      for i in range(47):
          current_time_seed = int(current_datetime.strftime("%d%H%M%S%f")) + i
          combined_seed = create_combined_seed(current_time_seed, weather_seed)
      ...
      official_time_seed = int(current_datetime.strftime("%d%H%M%S%f")) + 47
      official_seed = create_combined_seed(official_time_seed, weather_seed)
  \<close>
\<close>

definition trial_seeds :: "('w \<Rightarrow> int) \<Rightarrow> odeint \<Rightarrow> int \<Rightarrow> 'w \<Rightarrow> (error + int) list" where
  "trial_seeds h od base weather_seed =
     map (\<lambda>i. create_combined_seed h od (base + int i) weather_seed) [0..<47]"

definition official_seed :: "('w \<Rightarrow> int) \<Rightarrow> odeint \<Rightarrow> int \<Rightarrow> 'w \<Rightarrow> error + int" where
  "official_seed h od base weather_seed = create_combined_seed h od (base + 47) weather_seed"

subsection \<open>A concrete solver\<close>

text \<open>
  The explicit Euler scheme on the given grid, a fixed-step solver that stands in for
  \<^verbatim>\<open>odeint\<close> on concrete runs: the row at time \<open>t'\<close> is \<open>y + (t' - t) * f(y, t)\<close>.
\<close>

definition np_axpy :: "npfloat \<Rightarrow> real \<Rightarrow> npfloat \<Rightarrow> npfloat" where
  "np_axpy y hh d = (case (y, d) of (Some a, Some b) \<Rightarrow> Some (a + hh * b) | _ \<Rightarrow> None)"

fun euler_step :: "(pstate \<Rightarrow> real \<Rightarrow> pstate) \<Rightarrow> pstate \<Rightarrow> real \<Rightarrow> real \<Rightarrow> pstate" where
  "euler_step f (a, b, c, d) t hh =
     (case f (a, b, c, d) t of (a', b', c', d') \<Rightarrow>
        (np_axpy a hh a', np_axpy b hh b', np_axpy c hh c', np_axpy d hh d'))"

fun euler_rows :: "(pstate \<Rightarrow> real \<Rightarrow> pstate) \<Rightarrow> pstate \<Rightarrow> real list \<Rightarrow> pstate list" where
  "euler_rows f y [] = []"
| "euler_rows f y [t] = [y]"
| "euler_rows f y (t # t' # ts) = y # euler_rows f (euler_step f y t (t' - t)) (t' # ts)"

definition euler_odeint :: odeint where
  "euler_odeint f y0 ts = Inr (euler_rows f y0 ts)"

section \<open>Properties of the model\<close>

subsection \<open>The sampler\<close>

text \<open>The script's call \<^verbatim>\<open>random.sample(range(1, 41), 6)\<close> has \<open>setsize = 85\<close>.\<close>

lemma setsize_6: "setsize 6 = 85"
proof -
  have "\<lceil>log 4 (18::real)\<rceil> = 3"
  proof (rule ceiling_unique)
    have "(4::real) powr 2 < 18" by simp
    then show "of_int 3 - 1 < log 4 (18::real)"
      by (simp add: less_log_iff)
    have "(18::real) \<le> 4 powr 3" by simp
    then show "log 4 (18::real) \<le> of_int 3"
      by (simp add: log_le_iff)
  qed
  then show ?thesis by (simp add: setsize_def)
qed

text \<open>
  One round of the pool loop: the chosen element leaves the live prefix of the pool, whose
  last element fills the vacancy.
\<close>

lemma pool_step_mset:
  assumes "0 < L" "L \<le> length pool" "j < L"
  shows "add_mset (pool ! j) (mset (take (L - 1) (pool[j := pool ! (L - 1)]))) = mset (take L pool)"
proof -
  from assms obtain K where L: "L = Suc K" by (cases L) auto
  have tk: "take L pool = take K pool @ [pool ! K]"
    using assms L by (simp add: take_Suc_conv_app_nth)
  show ?thesis
  proof (cases "j = K")
    case True
    then show ?thesis using tk L by simp
  next
    case False
    with assms L have jK: "j < K" by simp
    have "take K (pool[j := pool ! K]) = (take K pool)[j := pool ! K]"
      by (simp add: take_update_swap)
    moreover have "j < length (take K pool)" using jK assms L by simp
    moreover have "(take K pool) ! j = pool ! j" using jK by simp
    moreover have "pool ! j \<in># mset (take K pool)"
      using jK assms L by (metis in_set_conv_nth length_take min.absorb2 nth_take set_mset_mset Suc_leD)
    ultimately show ?thesis using tk L
      by (simp add: mset_update)
  qed
qed

text \<open>
  The loop invariant: the live prefix of the pool and the result together are a
  sub-multiset of what they were at the start; each round makes one call of
  \<^verbatim>\<open>_randbelow\<close>, with the bound \<open>n - i\<close>.
\<close>

lemma sample_loop_ok:
  assumes rb: "\<forall>n s. 0 < n \<longrightarrow> fst (rb n s) < n"
  shows "length pool = n \<Longrightarrow> i + m \<le> n \<Longrightarrow>
    \<exists>res s'. sample_loop rb n i m pool result s = Inr (res, s')
       \<and> s' = run_randbelow rb (map (\<lambda>d. n - d) [i..<i + m]) s
       \<and> length res = length result + m
       \<and> mset res \<subseteq># mset (take (n - i) pool) + mset result"
proof (induction m arbitrary: i pool result s)
  case 0
  then show ?case by simp
next
  case (Suc m)
  obtain j s1 where js: "rb (n - i) s = (j, s1)" by (cases "rb (n - i) s")
  have pos: "0 < n - i" using Suc.prems by simp
  with rb js have jlt: "j < n - i" by (metis fst_conv)
  then have jlen: "j < length pool" using Suc.prems by simp
  let ?pool = "pool[j := pool ! (n - i - 1)]"
  let ?result = "result @ [pool ! j]"
  have "length ?pool = n" using Suc.prems by simp
  moreover have "Suc i + m \<le> n" using Suc.prems by simp
  ultimately obtain res s' where
    run: "sample_loop rb n (Suc i) m ?pool ?result s1 = Inr (res, s')"
    and st: "s' = run_randbelow rb (map (\<lambda>d. n - d) [Suc i..<Suc i + m]) s1"
    and len: "length res = length ?result + m"
    and sub: "mset res \<subseteq># mset (take (n - Suc i) ?pool) + mset ?result"
    using Suc.IH[of ?pool "Suc i" ?result s1] by blast
  have "add_mset (pool ! j) (mset (take (n - i - 1) ?pool)) = mset (take (n - i) pool)"
    using pool_step_mset[of "n - i" pool j] pos jlt Suc.prems by simp
  then have eq: "mset (take (n - Suc i) ?pool) + mset ?result = mset (take (n - i) pool) + mset result"
    by simp
  have "[i..<i + Suc m] = i # [Suc i..<Suc i + m]"
    by (simp add: upt_rec)
  then have st': "s' = run_randbelow rb (map (\<lambda>d. n - d) [i..<i + Suc m]) s"
    using st js by simp
  show ?case using run st' len sub js jlen unfolding eq by simp
qed

lemma sample_ok:
  assumes "randbelow_ok r" "k \<le> length population"
  shows "\<exists>res. sample r population k s =
            Inr (res, run_randbelow (rng_randbelow r) (map (\<lambda>d. length population - d) [0..<k]) s)
          \<and> length res = k \<and> mset res \<subseteq># mset population"
proof -
  have rb: "\<forall>n s. 0 < n \<longrightarrow> fst (rng_randbelow r n s) < n"
    using assms(1) by (simp add: randbelow_ok_def)
  show ?thesis
    using sample_loop_ok[OF rb, of population "length population" 0 k "[]" s] assms(2)
    by (auto simp: sample_def)
qed

lemma randint_ok:
  assumes "randbelow_ok r" "a \<le> b"
  shows "randint r a b s =
           Inr (a + int (fst (rng_randbelow r (nat (b + 1 - a)) s)), snd (rng_randbelow r (nat (b + 1 - a)) s))
         \<and> a \<le> a + int (fst (rng_randbelow r (nat (b + 1 - a)) s))
         \<and> a + int (fst (rng_randbelow r (nat (b + 1 - a)) s)) \<le> b"
proof -
  have "0 < nat (b + 1 - a)" using assms(2) by simp
  then have "fst (rng_randbelow r (nat (b + 1 - a)) s) < nat (b + 1 - a)"
    using assms(1) by (simp add: randbelow_ok_def)
  then show ?thesis using assms(2)
    by (auto simp: randint_def randrange_def split: prod.splits)
qed

lemma bounds_6: "map (\<lambda>d. 40 - d) [0..<6] = [40, 39, 38, 37, 36, 35::nat]"
  by (simp add: upt_rec)

lemma generate_ok:
  assumes "randbelow_ok r"
  shows "\<exists>picked. sample r [1..40] 6 (rng_seed r sd) =
            Inr (picked, run_randbelow (rng_randbelow r) [40, 39, 38, 37, 36, 35] (rng_seed r sd))
         \<and> length picked = 6 \<and> mset picked \<subseteq># mset [1..40]
         \<and> generate_eurodreams_numbers r gs sd =
            Inr ((sort picked,
                  [1 + int (fst (rng_randbelow r 5
                      (run_randbelow (rng_randbelow r) [40, 39, 38, 37, 36, 35] (rng_seed r sd))))]),
                 snd (rng_randbelow r 5
                      (run_randbelow (rng_randbelow r) [40, 39, 38, 37, 36, 35] (rng_seed r sd))))"
proof -
  let ?s0 = "rng_seed r sd"
  have len: "length [1..40::int] = 40" by simp
  obtain picked where
    s: "sample r [1..40] 6 ?s0 = Inr (picked, run_randbelow (rng_randbelow r) [40, 39, 38, 37, 36, 35] ?s0)"
    and l: "length picked = 6" and m: "mset picked \<subseteq># mset [1..40]"
    using sample_ok[OF assms, of 6 "[1..40]" ?s0] bounds_6 unfolding len by auto
  have ri: "randint r 1 5 s1 = Inr (1 + int (fst (rng_randbelow r 5 s1)), snd (rng_randbelow r 5 s1))" for s1
    using randint_ok[OF assms, of 1 5 s1] by simp
  show ?thesis using s l m
    by (auto simp: generate_eurodreams_numbers_def ri)
qed


subsection \<open>Rounding to doubles\<close>

lemma round_half_even_floor_le: "\<lfloor>m\<rfloor> \<le> round_half_even m"
  by (simp add: round_half_even_def Let_def)

lemma round_half_even_le_floor1: "round_half_even m \<le> \<lfloor>m\<rfloor> + 1"
  by (simp add: round_half_even_def Let_def)

lemma round_half_even_mono:
  assumes "m \<le> m'"
  shows "round_half_even m \<le> round_half_even m'"
proof (cases "\<lfloor>m\<rfloor> = \<lfloor>m'\<rfloor>")
  case True
  have "m - of_int \<lfloor>m\<rfloor> \<le> m' - of_int \<lfloor>m'\<rfloor>" using assms True by simp
  then show ?thesis using True
    by (auto simp: round_half_even_def Let_def)
next
  case False
  have "\<lfloor>m\<rfloor> \<le> \<lfloor>m'\<rfloor>" using assms by (rule floor_mono)
  with False have "\<lfloor>m\<rfloor> + 1 \<le> \<lfloor>m'\<rfloor>" by simp
  then show ?thesis
    using round_half_even_le_floor1[of m] round_half_even_floor_le[of m'] by linarith
qed

lemma round_half_even_near:
  assumes "\<bar>m - of_int k\<bar> < 1 / 2"
  shows "round_half_even m = k"
proof -
  consider "of_int k \<le> m" | "m < of_int k" by linarith
  then show ?thesis
  proof cases
    case 1
    then have "\<lfloor>m\<rfloor> = k" using assms by (intro floor_unique) auto
    then show ?thesis using assms 1 by (simp add: round_half_even_def Let_def)
  next
    case 2
    then have f: "\<lfloor>m\<rfloor> = k - 1" using assms by (intro floor_unique) auto
    have "1 / 2 < m - of_int (k - 1)" using assms 2 by simp
    then show ?thesis using f by (simp add: round_half_even_def Let_def)
  qed
qed

lemma round_half_even_of_int: "round_half_even (of_int k) = k"
  by (rule round_half_even_near) simp


lemma round_half_even_nonneg: "0 \<le> m \<Longrightarrow> 0 \<le> round_half_even m"
  using round_half_even_floor_le[of m] by (smt (verit) zero_le_floor)

lemma pow2_powr: "pow2 e = 2 powr real_of_int e"
  by (simp add: pow2_def powr_real_of_int inverse_eq_divide)

lemma pow2_pos: "0 < pow2 e"
  by (simp add: pow2_powr)

lemma pow2_add: "pow2 (a + b) = pow2 a * pow2 b"
  by (simp add: pow2_powr powr_add)

lemma pow2_mono: "a \<le> b \<Longrightarrow> pow2 a \<le> pow2 b"
  by (simp add: pow2_powr)

lemma pow2_nat: "pow2 (int n) = 2 ^ n"
  by (simp add: pow2_def)

lemma binade:
  assumes "x \<noteq> 0"
  shows "pow2 \<lfloor>log 2 \<bar>x\<bar>\<rfloor> \<le> \<bar>x\<bar>" and "\<bar>x\<bar> < pow2 (\<lfloor>log 2 \<bar>x\<bar>\<rfloor> + 1)"
proof -
  have "0 < \<bar>x\<bar>" using assms by simp
  then have "2 powr real_of_int \<lfloor>log 2 \<bar>x\<bar>\<rfloor> \<le> \<bar>x\<bar> \<and> \<bar>x\<bar> < 2 powr real_of_int (\<lfloor>log 2 \<bar>x\<bar>\<rfloor> + 1)"
    using floor_log_eq_powr_iff[of "\<bar>x\<bar>" 2 "\<lfloor>log 2 \<bar>x\<bar>\<rfloor>"] by simp
  then show "pow2 \<lfloor>log 2 \<bar>x\<bar>\<rfloor> \<le> \<bar>x\<bar>" and "\<bar>x\<bar> < pow2 (\<lfloor>log 2 \<bar>x\<bar>\<rfloor> + 1)"
    by (simp_all add: pow2_powr)
qed

lemma binade_unique:
  assumes "pow2 e \<le> \<bar>x\<bar>" "\<bar>x\<bar> < pow2 (e + 1)"
  shows "\<lfloor>log 2 \<bar>x\<bar>\<rfloor> = e"
proof -
  have "0 < \<bar>x\<bar>" using assms(1) pow2_pos[of e] by linarith
  then show ?thesis
    using floor_log_eq_powr_iff[of "\<bar>x\<bar>" 2 e] assms by (simp add: pow2_powr)
qed

text \<open>Evaluation at a point of a known binade with a known nearest multiple of the quantum.\<close>

lemma round_double_eval:
  assumes "pow2 e \<le> \<bar>x\<bar>" "\<bar>x\<bar> < pow2 (e + 1)" "- 1022 \<le> e"
    and "\<bar>x / pow2 (e - 52) - of_int k\<bar> < 1 / 2"
  shows "round_double x = of_int k * pow2 (e - 52)"
proof -
  have "x \<noteq> 0" using assms(1) pow2_pos[of e] by auto
  moreover have "double_exponent x = e - 52"
    using binade_unique[OF assms(1,2)] assms(3) by (simp add: double_exponent_def)
  ultimately show ?thesis
    using round_half_even_near[OF assms(4)] by (simp add: round_double_def)
qed

lemma round_double_nonneg:
  assumes "0 \<le> x"
  shows "0 \<le> round_double x"
proof (cases "x = 0")
  case True
  then show ?thesis by (simp add: round_double_def)
next
  case False
  have "0 \<le> x / pow2 (double_exponent x)"
    using assms pow2_pos[of "double_exponent x"] by simp
  then have "0 \<le> round_half_even (x / pow2 (double_exponent x))"
    by (rule round_half_even_nonneg)
  then show ?thesis using False pow2_pos[of "double_exponent x"]
    by (simp add: round_double_def)
qed

lemma double_exponent_mono:
  assumes "0 < x" "x \<le> y"
  shows "double_exponent x \<le> double_exponent y"
proof -
  have "log 2 \<bar>x\<bar> \<le> log 2 \<bar>y\<bar>" using assms by simp
  then have "\<lfloor>log 2 \<bar>x\<bar>\<rfloor> \<le> \<lfloor>log 2 \<bar>y\<bar>\<rfloor>" by (rule floor_mono)
  then show ?thesis by (simp add: double_exponent_def)
qed

lemma scaled_less:
  assumes "0 < x"
  shows "x / pow2 (double_exponent x) < 2 ^ 53"
proof -
  let ?E = "\<lfloor>log 2 \<bar>x\<bar>\<rfloor>"
  have "x < pow2 (?E + 1)" using binade(2)[of x] assms by simp
  also have "\<dots> = 2 ^ 53 * pow2 (?E - 52)"
  proof -
    have "?E + 1 = 53 + (?E - 52)" by simp
    then have "pow2 (?E + 1) = pow2 53 * pow2 (?E - 52)"
      by (simp only: pow2_add)
    then show ?thesis using pow2_nat[of 53] by simp
  qed
  also have "\<dots> \<le> 2 ^ 53 * pow2 (double_exponent x)"
    using pow2_mono[of "?E - 52" "double_exponent x"] by (simp add: double_exponent_def)
  finally show ?thesis using pow2_pos[of "double_exponent x"]
    by (simp add: pos_divide_less_eq)
qed

lemma scaled_ge:
  assumes "0 < x" "- 1074 < double_exponent x"
  shows "2 ^ 52 \<le> x / pow2 (double_exponent x)"
proof -
  let ?E = "\<lfloor>log 2 \<bar>x\<bar>\<rfloor>"
  have e: "double_exponent x = ?E - 52"
    using assms(2) by (simp add: double_exponent_def max_def split: if_splits)
  have "2 ^ 52 * pow2 (?E - 52) = pow2 ?E"
  proof -
    have "?E = 52 + (?E - 52)" by simp
    then have "pow2 ?E = pow2 52 * pow2 (?E - 52)"
      by (metis pow2_add)
    then show ?thesis using pow2_nat[of 52] by simp
  qed
  also have "\<dots> \<le> x" using binade(1)[of x] assms(1) by simp
  finally show ?thesis using pow2_pos[of "double_exponent x"] e
    by (simp add: pos_le_divide_eq)
qed

lemma round_double_mono_pos:
  assumes "0 < x" "x \<le> y"
  shows "round_double x \<le> round_double y"
proof -
  let ?ex = "double_exponent x" and ?ey = "double_exponent y"
  have y: "0 < y" using assms by simp
  have le: "?ex \<le> ?ey" using assms by (rule double_exponent_mono)
  have rx: "round_double x = of_int (round_half_even (x / pow2 ?ex)) * pow2 ?ex"
    using assms(1) by (simp add: round_double_def)
  have ry: "round_double y = of_int (round_half_even (y / pow2 ?ey)) * pow2 ?ey"
    using y by (simp add: round_double_def)
  show ?thesis
  proof (cases "?ex = ?ey")
    case True
    have "x / pow2 ?ex \<le> y / pow2 ?ex"
      using assms(2) pow2_pos[of ?ex] by (simp add: divide_right_mono)
    then have "round_half_even (x / pow2 ?ex) \<le> round_half_even (y / pow2 ?ex)"
      by (rule round_half_even_mono)
    then have "real_of_int (round_half_even (x / pow2 ?ex)) * pow2 ?ex
             \<le> real_of_int (round_half_even (y / pow2 ?ex)) * pow2 ?ex"
      using pow2_pos[of ?ex] by (simp add: mult_right_mono)
    then show ?thesis using rx ry True by simp
  next
    case False
    with le have lt: "?ex + 1 \<le> ?ey" by simp
    have "- 1074 \<le> ?ex" by (simp add: double_exponent_def)
    with lt have normal: "- 1074 < ?ey" by simp
    have "\<lfloor>x / pow2 ?ex\<rfloor> < 2 ^ 53"
      using scaled_less[OF assms(1)] by (simp add: floor_less_iff)
    then have "round_half_even (x / pow2 ?ex) \<le> 2 ^ 53"
      using round_half_even_le_floor1[of "x / pow2 ?ex"] by linarith
    then have "real_of_int (round_half_even (x / pow2 ?ex)) \<le> 2 ^ 53"
      by (metis of_int_le_iff of_int_numeral of_int_power)
    then have "round_double x \<le> 2 ^ 53 * pow2 ?ex"
      using rx pow2_pos[of ?ex] by (simp add: mult_right_mono)
    also have "\<dots> = 2 ^ 52 * pow2 (?ex + 1)"
      using pow2_add[of ?ex 1] by (simp add: pow2_def)
    also have "\<dots> \<le> 2 ^ 52 * pow2 ?ey"
      using pow2_mono[OF lt] by simp
    also have "\<dots> \<le> round_double y"
    proof -
      have "(2::int) ^ 52 \<le> \<lfloor>y / pow2 ?ey\<rfloor>"
        using scaled_ge[OF y normal] by (simp add: le_floor_iff)
      then have "(2::int) ^ 52 \<le> round_half_even (y / pow2 ?ey)"
        using round_half_even_floor_le[of "y / pow2 ?ey"] by linarith
      then have "(2::real) ^ 52 \<le> real_of_int (round_half_even (y / pow2 ?ey))"
        by (metis of_int_le_iff of_int_numeral of_int_power)
      then show ?thesis using ry pow2_pos[of ?ey] by (simp add: mult_right_mono)
    qed
    finally show ?thesis .
  qed
qed

lemma round_double_mono:
  assumes "0 \<le> x" "x \<le> y"
  shows "round_double x \<le> round_double y"
proof (cases "x = 0")
  case True
  then show ?thesis using round_double_nonneg[of y] assms by (simp add: round_double_def)
next
  case False
  then show ?thesis using assms round_double_mono_pos[of x y] by simp
qed


lemma round_double_1: "round_double 1 = 1"
  by (rule round_double_eval[where e = 0 and k = "2 ^ 52", THEN trans]) (simp_all add: pow2_def)

lemma round_double_10: "round_double 10 = 10"
  by (rule round_double_eval[where e = 3 and k = "10 * 2 ^ 49", THEN trans]) (simp_all add: pow2_def)

lemma round_double_7: "round_double 7 = 7"
  by (rule round_double_eval[where e = 2 and k = "7 * 2 ^ 50", THEN trans]) (simp_all add: pow2_def)

lemma round_double_dt_default: "round_double dt_default = dt_default"
  unfolding dt_default_def
  by (rule round_double_eval[where e = "- 7" and k = 5764607523034235, THEN trans])
     (simp_all add: pow2_def)

lemma round_double_007: "round_double (1261007895663739 / 2 ^ 54) = 1261007895663739 / 2 ^ 54"
  by (rule round_double_eval[where e = "- 4" and k = 5044031582654956, THEN trans])
     (simp_all add: pow2_def)

lemma round_double_quot_007:
  "round_double (1261007895663739 / 2 ^ 54 / dt_default) = 7881299347898369 / 2 ^ 50"
  unfolding dt_default_def
  by (rule round_double_eval[where e = 2 and k = 7881299347898369, THEN trans])
     (simp_all add: pow2_def)

lemma round_double_quot_default: "round_double (10 / dt_default) = 1000"
  unfolding dt_default_def
  by (rule round_double_eval[where e = 9 and k = 8796093022208000, THEN trans])
     (simp_all add: pow2_def)

lemma round_double_7_dt: "round_double (7 * dt_default) = 1261007895663739 / 2 ^ 54"
  unfolding dt_default_def
  by (rule round_double_eval[where e = "- 4" and k = 5044031582654956, THEN trans])
     (simp_all add: pow2_def)

lemma round_double_big: "round_double (10 / (1298074214633707 / 2 ^ 110)) = 10 ^ 19"
  by (rule round_double_eval[where e = 63 and k = 4882812500000000, THEN trans])
     (simp_all add: pow2_def)

lemma round_double_tenth: "round_double (3602879701896397 / 2 ^ 55) = 3602879701896397 / 2 ^ 55"
  by (rule round_double_eval[where e = "- 4" and k = 7205759403792794, THEN trans])
     (simp_all add: pow2_def)

lemma round_double_quot_tenth: "round_double (3602879701896397 / 2 ^ 55 / dt_default) = 10"
  unfolding dt_default_def
  by (rule round_double_eval[where e = 3 and k = 5629499534213120, THEN trans])
     (simp_all add: pow2_def)


lemma euler_rows_length: "length (euler_rows f y ts) = length ts"
  by (induction f y ts rule: euler_rows.induct) simp_all

lemma euler_contract: "odeint_contract euler_odeint"
  by (simp add: odeint_contract_def euler_odeint_def euler_rows_length)

text \<open>
  With unit lengths and masses the divisor \<open>m1 + m2 * s\<^sup>2\<close> is at least 1, so the
  right-hand side sends finite states to finite states, and so does the Euler scheme.
\<close>

lemma deriv_finite_unit:
  "\<exists>a' b' c' d'. deriv (Some a, Some b, Some c, Some d) t 1 1 1 1 = (Some a', Some b', Some c', Some d')"
proof -
  have "1 + (sin (a - c))\<^sup>2 \<noteq> 0"
    by (metis add_nonneg_pos less_numeral_extra(1) not_less_iff_gr_or_eq zero_le_power2 add.commute)
  then show ?thesis by (simp add: np_div_def Let_def)
qed

lemma euler_step_finite_unit:
  "\<exists>a' b' c' d'. euler_step (\<lambda>y t. deriv y t 1 1 1 1) (Some a, Some b, Some c, Some d) t hh
      = (Some a', Some b', Some c', Some d')"
proof -
  obtain a' b' c' d' where "deriv (Some a, Some b, Some c, Some d) t 1 1 1 1 = (Some a', Some b', Some c', Some d')"
    using deriv_finite_unit by blast
  then show ?thesis by (simp add: np_axpy_def)
qed

lemma euler_rows_finite_unit:
  "ts \<noteq> [] \<Longrightarrow> \<exists>a' b' c' d'. last (euler_rows (\<lambda>y t. deriv y t 1 1 1 1) (Some a, Some b, Some c, Some d) ts)
      = (Some a', Some b', Some c', Some d')"
proof (induction ts arbitrary: a b c d)
  case Nil
  then show ?case by simp
next
  case (Cons t ts)
  show ?case
  proof (cases ts)
    case Nil
    then show ?thesis by simp
  next
    case (Cons t' ts')
    obtain a' b' c' d' where st: "euler_step (\<lambda>y t. deriv y t 1 1 1 1) (Some a, Some b, Some c, Some d) t (t' - t)
      = (Some a', Some b', Some c', Some d')"
      using euler_step_finite_unit by blast
    have "ts \<noteq> []" using Cons by simp
    from Cons.IH[OF this, of a' b' c' d'] show ?thesis
      using Cons st euler_rows_length[of "(\<lambda>y t. deriv y t 1 1 1 1)" "(Some a', Some b', Some c', Some d')" "t' # ts'"]
      by (auto simp del: euler_step.simps)
  qed
qed



lemma lcg_randbelow_ok: "randbelow_ok lcg_prng"
  by (simp add: randbelow_ok_def lcg_prng_def nat_less_iff)

lemma sample_branch: "length [1..40::int] \<le> setsize 6"
  by (simp add: setsize_6)

lemma generate_lcg_42:
  "generate_eurodreams_numbers lcg_prng 0 42 = Inr (([3, 15, 16, 25, 28, 35], [3]), 896336333)"
  by code_simp

lemma py_int_nonneg: "0 \<le> x \<Longrightarrow> py_int x = \<lfloor>x\<rfloor>"
  by (simp add: py_int_def)

lemma create_combined_seed_finite:
  assumes "get_chaotic_value_default od = Inr (Some v)"
  shows "create_combined_seed h od t w = Inr (h w + t + \<lfloor>\<bar>v\<bar> * 1000000\<rfloor>)"
  using assms by (simp add: create_combined_seed_def py_int_nonneg)


subsection \<open>Sub-multisets of a list without repetition\<close>

lemma mset_sub_distinct:
  assumes "mset xs \<subseteq># mset ys" "distinct ys"
  shows "distinct xs"
proof -
  have le: "count (mset xs) a \<le> 1" for a
  proof -
    have "count (mset xs) a \<le> count (mset ys) a"
      using assms(1) by (rule mset_subset_eq_count)
    also have "\<dots> \<le> 1"
      using assms(2) by (simp add: distinct_count_atmost_1)
    finally show ?thesis .
  qed
  have "count (mset xs) a = (if a \<in> set xs then 1 else 0)" for a
  proof (cases "a \<in> set xs")
    case True
    then have "0 < count (mset xs) a" by simp
    with le[of a] have "count (mset xs) a = 1" by linarith
    then show ?thesis using True by simp
  next
    case False
    then show ?thesis by (simp add: count_mset_0_iff)
  qed
  then show ?thesis by (simp add: distinct_count_atmost_1)
qed

lemma mset_sub_set:
  assumes "mset xs \<subseteq># mset ys"
  shows "set xs \<subseteq> set ys"
  using set_mset_mono[OF assms] by simp

subsection \<open>The time grid\<close>

lemma arange_zero_step: "arange start stop 0 = Inl ZeroDivisionError"
  by (simp add: arange_def)

lemma arange_length_pos:
  assumes "0 < tmax" "0 < dt" "round_double tmax = tmax"
  shows "arange_length 0 tmax dt =
           (if round_double (tmax / dt) = 0 then 1 else \<lceil>round_double (tmax / dt)\<rceil>)"
    and "0 < arange_length 0 tmax dt"
proof -
  have q: "0 < tmax / dt" using assms(1,2) by simp
  then have nn: "0 \<le> round_double (tmax / dt)"
    using round_double_nonneg[of "tmax / dt"] by simp
  have nq: "\<not> tmax / dt < 0" using q by linarith
  have t0: "tmax \<noteq> 0" using assms(1) by simp
  show eq: "arange_length 0 tmax dt =
           (if round_double (tmax / dt) = 0 then 1 else \<lceil>round_double (tmax / dt)\<rceil>)"
    unfolding arange_length_def Let_def using assms(3) nq t0 by simp
  show "0 < arange_length 0 tmax dt"
  proof (cases "round_double (tmax / dt) = 0")
    case True
    then show ?thesis using eq by simp
  next
    case False
    with nn have "0 < round_double (tmax / dt)" by simp
    then have "0 < \<lceil>round_double (tmax / dt)\<rceil>" by simp
    then show ?thesis using eq False by simp
  qed
qed

lemma grid_time_nonneg:
  assumes "0 < dt"
  shows "0 \<le> grid_time dt i"
proof -
  have "0 \<le> round_double (real i)" by (rule round_double_nonneg) simp
  then have "0 \<le> round_double (real i) * dt" using assms by simp
  then have "0 \<le> round_double (round_double (real i) * dt)" by (rule round_double_nonneg)
  then have "0 \<le> round_double (round_double (round_double (real i) * dt))"
    by (rule round_double_nonneg)
  then show ?thesis using assms by (simp add: grid_time_def)
qed

lemma grid_time_ge_dt:
  assumes "0 < dt" "round_double dt = dt" "1 \<le> i"
  shows "dt \<le> grid_time dt i"
proof (cases "i = 1")
  case True
  then show ?thesis by (simp add: grid_time_def)
next
  case False
  have "round_double 1 \<le> round_double (real i)"
    using assms(3) by (intro round_double_mono) simp_all
  then have "1 \<le> round_double (real i)" by (simp add: round_double_1)
  then have "dt \<le> round_double (real i) * dt" using assms(1) by simp
  then have "round_double dt \<le> round_double (round_double (real i) * dt)"
    using assms(1) by (intro round_double_mono) simp_all
  then have "dt \<le> round_double (round_double (real i) * dt)" using assms(2) by simp
  then have "round_double dt \<le> round_double (round_double (round_double (real i) * dt))"
    using assms(1) by (intro round_double_mono) simp_all
  then show ?thesis using assms(2,3) False by (simp add: grid_time_def)
qed

lemma grid_time_mono:
  assumes "0 < dt" "round_double dt = dt" "i \<le> j"
  shows "grid_time dt i \<le> grid_time dt j"
proof -
  consider "i = 0" | "i = 1" | "2 \<le> i" by linarith
  then show ?thesis
  proof cases
    case 1
    then show ?thesis using grid_time_nonneg[OF assms(1), of j] by (simp add: grid_time_def)
  next
    case 2
    then have "grid_time dt i = dt" by (simp add: grid_time_def)
    then show ?thesis using grid_time_ge_dt[OF assms(1,2), of j] assms(3) 2 by simp
  next
    case 3
    have a: "round_double (real i) \<le> round_double (real j)"
      using assms(3) by (intro round_double_mono) simp_all
    have n: "0 \<le> round_double (real i)" by (rule round_double_nonneg) simp
    have b: "round_double (real i) * dt \<le> round_double (real j) * dt"
      using a assms(1) by simp
    have c: "round_double (round_double (real i) * dt) \<le> round_double (round_double (real j) * dt)"
    proof (rule round_double_mono)
      show "0 \<le> round_double (real i) * dt" using n assms(1) by simp
      show "round_double (real i) * dt \<le> round_double (real j) * dt" by (rule b)
    qed
    have m: "0 \<le> round_double (real i) * dt" using n assms(1) by simp
    have "0 \<le> round_double (round_double (real i) * dt)"
      using m by (rule round_double_nonneg)
    then have "round_double (round_double (round_double (real i) * dt))
             \<le> round_double (round_double (round_double (real j) * dt))"
      using c by (rule round_double_mono)
    then show ?thesis using 3 assms(3) by (simp add: grid_time_def)
  qed
qed

lemma grid_sorted:
  assumes "0 < dt" "round_double dt = dt"
  shows "sorted (map (grid_time dt) [0..<n])"
proof -
  have "sorted_wrt (\<lambda>i j. grid_time dt i \<le> grid_time dt j) [0..<n]"
    by (rule sorted_wrt_mono_rel[of "[0..<n]" "(\<le>)"])
       (simp_all add: grid_time_mono[OF assms])
  then show ?thesis by (simp add: sorted_map)
qed

lemma arange_grid:
  assumes "0 < tmax" "0 < dt" "round_double tmax = tmax" "round_double dt = dt"
    and "arange_length 0 tmax dt < 2 ^ 60"
  shows "arange 0 tmax dt = Inr (map (grid_time dt) [0..<nat (arange_length 0 tmax dt)])"
proof -
  have pos: "0 < arange_length 0 tmax dt" using assms(1,2,3) by (rule arange_length_pos(2))
  show ?thesis using pos assms(2,4,5)
    by (simp add: arange_def Let_def not_le grid_time_def)
qed

lemma arange_oversize:
  assumes "0 < dt" "2 ^ 60 \<le> arange_length 0 tmax dt"
  shows "arange 0 tmax dt = Inl ValueError"
  using assms by (simp add: arange_def Let_def)

lemma arange_never_empty:
  assumes "0 < tmax" "0 < dt" "round_double tmax = tmax"
  shows "arange 0 tmax dt \<noteq> Inr []"
proof -
  have pos: "0 < arange_length 0 tmax dt" using assms by (rule arange_length_pos(2))
  then have "0 < nat (arange_length 0 tmax dt)" by simp
  then show ?thesis using assms(2) pos
    by (auto simp: arange_def Let_def)
qed

lemma simulate_grid:
  assumes "odeint_contract od" "0 < tmax" "0 < dt" "round_double tmax = tmax"
    "round_double dt = dt" "arange_length 0 tmax dt < 2 ^ 60"
  shows "\<exists>sol. od (\<lambda>y t. deriv y t L1 L2 m1 m2) y0
                 (map (grid_time dt) [0..<nat (arange_length 0 tmax dt)]) = Inr sol
           \<and> length sol = nat (arange_length 0 tmax dt)
           \<and> simulate_double_pendulum od L1 L2 m1 m2 tmax dt y0 =
               Inr (map fst sol, map (\<lambda>row. fst (snd (snd row))) sol)"
proof -
  let ?ts = "map (grid_time dt) [0..<nat (arange_length 0 tmax dt)]"
  have "0 < arange_length 0 tmax dt" using assms(2,3,4) by (rule arange_length_pos(2))
  then have ne: "?ts \<noteq> []" by simp
  have so: "sorted ?ts" using assms(3,5) by (rule grid_sorted)
  obtain sol where sol: "od (\<lambda>y t. deriv y t L1 L2 m1 m2) y0 ?ts = Inr sol"
    and len: "length sol = length ?ts"
    using assms(1) ne so unfolding odeint_contract_def by blast
  show ?thesis using sol len arange_grid[OF assms(2,3,4,5,6)]
    by (simp add: simulate_double_pendulum_def)
qed

lemma get_chaotic_value_nonempty:
  assumes "odeint_contract od" "0 < tmax" "0 < dt" "round_double tmax = tmax"
    "round_double dt = dt" "arange_length 0 tmax dt < 2 ^ 60"
  shows "\<exists>theta1 theta2. simulate_double_pendulum od L1 L2 m1 m2 tmax dt y0 = Inr (theta1, theta2)
           \<and> length theta1 = nat (arange_length 0 tmax dt)
           \<and> length theta2 = nat (arange_length 0 tmax dt)
           \<and> theta2 \<noteq> []
           \<and> get_chaotic_value_from_pendulum od L1 L2 m1 m2 tmax dt y0 = Inr (last theta2)"
proof -
  obtain sol :: "pstate list" where len: "length sol = nat (arange_length 0 tmax dt)"
    and sim: "simulate_double_pendulum od L1 L2 m1 m2 tmax dt y0 =
               Inr (map fst sol, map (\<lambda>row. fst (snd (snd row))) sol)"
    using simulate_grid[OF assms, of L1 L2 m1 m2 y0] by blast
  have "0 < arange_length 0 tmax dt" using assms(2,3,4) by (rule arange_length_pos(2))
  then have "sol \<noteq> []" using len by auto
  then show ?thesis using len sim
    by (simp add: get_chaotic_value_from_pendulum_def)
qed

lemma default_length: "arange_length 0 10 dt_default = 1000"
proof -
  have "(0::real) < 10" "0 < dt_default" by (simp_all add: dt_default_def)
  from arange_length_pos(1)[OF this round_double_10] show ?thesis
    by (simp add: round_double_quot_default)
qed

lemma dt_default_pos: "0 < dt_default"
  by (simp add: dt_default_def)

lemma euler_chaotic_finite: "\<exists>v. get_chaotic_value_default euler_odeint = Inr (Some v)"
proof -
  let ?ts = "map (grid_time dt_default) [0..<nat (arange_length 0 10 dt_default)]"
  let ?f = "\<lambda>y t. deriv y t 1 1 1 1"
  have ne: "?ts \<noteq> []" by (simp add: default_length)
  have ar: "arange 0 10 dt_default = Inr ?ts"
    by (rule arange_grid) (simp_all add: dt_default_pos round_double_10 round_double_dt_default default_length)
  obtain a b c d where l: "last (euler_rows ?f default_y0 ?ts) = (Some a, Some b, Some c, Some d)"
    using euler_rows_finite_unit[OF ne] unfolding default_y0_def by blast
  have rows: "euler_rows ?f default_y0 ?ts \<noteq> []"
    using euler_rows_length[of ?f default_y0 ?ts] ne by (metis length_0_conv)
  have "get_chaotic_value_default euler_odeint = Inr (Some c)"
    unfolding get_chaotic_value_default_def get_chaotic_value_from_pendulum_def
      simulate_double_pendulum_def ar euler_odeint_def
    using rows l by (simp add: last_map)
  then show ?thesis by blast
qed

subsection \<open>The defaults and two other inputs\<close>

lemma is_double_10: "is_double 10"
  by (simp add: is_double_def round_double_10)

lemma is_double_dt_default: "is_double dt_default"
proof -
  have "\<bar>dt_default\<bar> < 1" by (simp add: dt_default_def)
  also have "(1::real) < 2 ^ 1024" by simp
  finally show ?thesis by (simp add: is_double_def round_double_dt_default)
qed

lemma round_double_tiny:
  "round_double (1298074214633707 / 2 ^ 110) = 1298074214633707 / 2 ^ 110"
  by (rule round_double_eval[where e = "- 60" and k = 5192296858534828, THEN trans])
     (simp_all add: pow2_def)

lemma dt_default_less: "dt_default < 10"
  by (simp add: dt_default_def)

lemma is_double_tiny: "is_double (1298074214633707 / 2 ^ 110)"
proof -
  have "\<bar>1298074214633707 / 2 ^ 110 :: real\<bar> < 1" by simp
  also have "(1::real) < 2 ^ 1024" by simp
  finally show ?thesis using round_double_tiny by (simp add: is_double_def)
qed

lemma oversize_length: "arange_length 0 10 (1298074214633707 / 2 ^ 110) = 10 ^ 19"
proof -
  have "(0::real) < 10" "(0::real) < 1298074214633707 / 2 ^ 110" by simp_all
  from arange_length_pos(1)[OF this round_double_10]
  have "arange_length 0 10 (1298074214633707 / 2 ^ 110) =
          (if round_double (10 / (1298074214633707 / 2 ^ 110)) = 0 then 1
           else \<lceil>round_double (10 / (1298074214633707 / 2 ^ 110))\<rceil>)" .
  then show ?thesis unfolding round_double_big by simp
qed

text \<open>
  With the doubles that \<^verbatim>\<open>0.1\<close> and \<^verbatim>\<open>0.01\<close> denote, the exact quotient is above 10 and the
  rounded one is 10: the grid has 10 times.
\<close>

lemma tenth_length: "arange_length 0 (3602879701896397 / 2 ^ 55) dt_default = 10"
proof -
  have "(0::real) < 3602879701896397 / 2 ^ 55" by simp
  from arange_length_pos(1)[OF this dt_default_pos round_double_tenth]
  have "arange_length 0 (3602879701896397 / 2 ^ 55) dt_default =
          (if round_double (3602879701896397 / 2 ^ 55 / dt_default) = 0 then 1
           else \<lceil>round_double (3602879701896397 / 2 ^ 55 / dt_default)\<rceil>)" .
  then show ?thesis unfolding round_double_quot_tenth by simp
qed

subsection \<open>The state of a run\<close>

lemma step_y0: "step r st st' \<Longrightarrow> y0_object st' = y0_object st"
  by (induction rule: step.induct) simp_all

lemma run_y0: "rtranclp (step r) st st' \<Longrightarrow> y0_object st' = y0_object st"
  by (induction rule: rtranclp_induct) (simp_all add: step_y0)

section \<open>The claims\<close>

text \<open>
  C1. For every time-derived integer \<open>t\<close> and every external token \<open>w\<close>,
  \<open>create_combined_seed\<close> returns exactly \<open>hash(w) + t + floor(|v| * 1e6)\<close>, where \<open>v\<close> is the
  chaotic value that the Chaos Extractor returns with its default arguments: the absolute
  value is not negative, so the truncation of \<^verbatim>\<open>int\<close> is the floor.
\<close>

theorem create_combined_seed_formula:
  assumes "get_chaotic_value_default od = Inr (Some v)"
  shows "create_combined_seed h od t w = Inr (h w + t + \<lfloor>\<bar>v\<bar> * 1000000\<rfloor>)"
  using assms by (simp add: create_combined_seed_def py_int_nonneg)

theorem create_combined_seed_formula_witness:
  "\<exists>v. get_chaotic_value_default euler_odeint = Inr (Some v)
     \<and> create_combined_seed (\<lambda>w. int (length w)) euler_odeint 100 ''20,50,0,clearsky''
         = Inr (16 + 100 + \<lfloor>\<bar>v\<bar> * 1000000\<rfloor>)"
proof -
  obtain v where v: "get_chaotic_value_default euler_odeint = Inr (Some v)"
    using euler_chaotic_finite by blast
  have "create_combined_seed (\<lambda>w. int (length w)) euler_odeint 100 ''20,50,0,clearsky''
         = Inr (16 + 100 + \<lfloor>\<bar>v\<bar> * 1000000\<rfloor>)"
    using create_combined_seed_formula [OF v, of "\<lambda>w. int (length w)" 100 "''20,50,0,clearsky''"]
    by simp
  with v show ?thesis by blast
qed

text \<open>
  C2. For every seed, \<open>generate_eurodreams_numbers\<close> returns six main numbers that are
  pairwise distinct, lie in \<open>[1, 40]\<close> and are sorted in ascending order, together with
  exactly one bonus number in \<open>[1, 5]\<close>. The generator is any one whose \<^verbatim>\<open>_randbelow\<close>
  keeps its contract.
\<close>

theorem generate_eurodreams_numbers_draw:
  assumes "randbelow_ok r"
  shows "\<exists>main_numbers bonus_number gs'.
           generate_eurodreams_numbers r gs seed = Inr ((main_numbers, [bonus_number]), gs')
         \<and> length main_numbers = 6 \<and> distinct main_numbers \<and> sorted main_numbers
         \<and> set main_numbers \<subseteq> {1..40}
         \<and> 1 \<le> bonus_number \<and> bonus_number \<le> 5"
proof -
  let ?s6 = "run_randbelow (rng_randbelow r) [40, 39, 38, 37, 36, 35] (rng_seed r seed)"
  let ?j = "fst (rng_randbelow r 5 ?s6)"
  obtain picked where len: "length picked = 6" and sub: "mset picked \<subseteq># mset [1..40]"
    and gen: "generate_eurodreams_numbers r gs seed =
                Inr ((sort picked, [1 + int ?j]), snd (rng_randbelow r 5 ?s6))"
    using generate_ok[OF assms, of seed gs] by blast
  have dist: "distinct picked"
    using mset_sub_distinct[OF sub] by simp
  have "set picked \<subseteq> set [1..40]"
    using sub by (rule mset_sub_set)
  then have rng: "set (sort picked) \<subseteq> {1..40}" by simp
  have "?j < 5" using assms by (simp add: randbelow_ok_def)
  then have b: "1 \<le> 1 + int ?j \<and> 1 + int ?j \<le> 5" by simp
  show ?thesis using gen len dist rng b by simp
qed

theorem generate_eurodreams_numbers_draw_witness:
  "randbelow_ok lcg_prng
   \<and> generate_eurodreams_numbers lcg_prng 0 42 = Inr (([3, 15, 16, 25, 28, 35], [3]), 896336333)
   \<and> (\<exists>main_numbers bonus_number gs'.
           generate_eurodreams_numbers lcg_prng 0 42 = Inr ((main_numbers, [bonus_number]), gs')
         \<and> length main_numbers = 6 \<and> distinct main_numbers \<and> sorted main_numbers
         \<and> set main_numbers \<subseteq> {1..40}
         \<and> 1 \<le> bonus_number \<and> bonus_number \<le> 5)"
  using generate_eurodreams_numbers_draw [OF lcg_randbelow_ok, of 0 42] lcg_randbelow_ok generate_lcg_42
  by blast

text \<open>
  C3. The Number Sampler is deterministic: two calls with equal seeds return the same main
  numbers and the same bonus number, whatever state the global generator was in before each
  call, since \<^verbatim>\<open>random.seed\<close> overwrites it. The state left behind is the same as well.
\<close>

theorem generate_eurodreams_numbers_deterministic:
  "generate_eurodreams_numbers r gs1 seed = generate_eurodreams_numbers r gs2 seed"
  by (simp add: generate_eurodreams_numbers_def)

text \<open>
  C4. Called with its default arguments, the Chaos Extractor is a pure nullary function: at
  any two points of one run, whatever calls of the module's functions lie before and between
  them, it returns the same chaotic value and leaves the state of the run as it is. The value
  is the one that the function \<open>get_chaotic_value_default\<close> of the solver gives: the last \<open>theta2\<close> sample (sample 999 of 1000) of the trajectory that the Integrator
  produces on the fixed inputs \<open>L1 = L2 = 1\<close>, \<open>m1 = m2 = 1\<close>, \<open>tmax = 10\<close>, \<open>dt = 0.01\<close>,
  \<open>y0 = (\<pi> - 0.1, 0, \<pi> - 0.2, 0)\<close>. The solver is taken as a function of its arguments.
\<close>

theorem get_chaotic_value_call_constant:
  assumes "odeint_contract od"
    and "rtranclp (step r) (initial_process gs0) st1"
    and "rtranclp (step r) st1 st2"
  shows "fst (get_chaotic_value_call od st1) = fst (get_chaotic_value_call od st2)
       \<and> fst (get_chaotic_value_call od st1) = get_chaotic_value_default od
       \<and> snd (get_chaotic_value_call od st1) = st1
       \<and> snd (get_chaotic_value_call od st2) = st2
       \<and> (\<exists>theta1 theta2.
             simulate_double_pendulum od 1 1 1 1 10 dt_default
                 (Some (pi - 1 / 10), Some 0, Some (pi - 2 / 10), Some 0) = Inr (theta1, theta2)
           \<and> length theta2 = 1000
           \<and> fst (get_chaotic_value_call od st1) = Inr (last theta2)
           \<and> fst (get_chaotic_value_call od st2) = Inr (last theta2)
           \<and> last theta2 = theta2 ! 999)"
proof -
  have y1: "y0_object st1 = default_y0"
    using run_y0[OF assms(2)] by (simp add: initial_process_def)
  have y2: "y0_object st2 = default_y0"
    using run_y0[OF assms(3)] y1 by simp
  have h: "(0::real) < 10" "0 < dt_default" "round_double 10 = 10"
    "round_double dt_default = dt_default" "arange_length 0 10 dt_default < 2 ^ 60"
    by (simp_all add: dt_default_pos round_double_10 round_double_dt_default default_length)
  obtain theta1 theta2 where
    sim: "simulate_double_pendulum od 1 1 1 1 10 dt_default default_y0 = Inr (theta1, theta2)"
    and len: "length theta2 = nat (arange_length 0 10 dt_default)"
    and ne: "theta2 \<noteq> []"
    and val: "get_chaotic_value_from_pendulum od 1 1 1 1 10 dt_default default_y0 = Inr (last theta2)"
    using get_chaotic_value_nonempty[OF assms(1) h, of 1 1 1 1 default_y0] by auto
  have len': "length theta2 = 1000" using len by (simp add: default_length)
  have nth: "last theta2 = theta2 ! 999" using ne len' by (simp add: last_conv_nth)
  have c1: "fst (get_chaotic_value_call od st1) = Inr (last theta2)"
    using val y1 by (simp add: get_chaotic_value_call_def)
  have c2: "fst (get_chaotic_value_call od st2) = Inr (last theta2)"
    using val y2 by (simp add: get_chaotic_value_call_def)
  have "\<exists>theta1 theta2.
             simulate_double_pendulum od 1 1 1 1 10 dt_default
                 (Some (pi - 1 / 10), Some 0, Some (pi - 2 / 10), Some 0) = Inr (theta1, theta2)
           \<and> length theta2 = 1000
           \<and> fst (get_chaotic_value_call od st1) = Inr (last theta2)
           \<and> fst (get_chaotic_value_call od st2) = Inr (last theta2)
           \<and> last theta2 = theta2 ! 999"
    using sim len' c1 c2 nth unfolding default_y0_def by blast
  moreover have "fst (get_chaotic_value_call od st1) = get_chaotic_value_default od"
    using y1 by (simp add: get_chaotic_value_call_def get_chaotic_value_default_def)
  ultimately show ?thesis using c1 c2 by (simp add: get_chaotic_value_call_def)
qed

theorem get_chaotic_value_call_constant_witness:
  "odeint_contract euler_odeint
   \<and> rtranclp (step lcg_prng) (initial_process (0::int)) (initial_process (0::int))
   \<and> rtranclp (step lcg_prng) (initial_process (0::int)) ((initial_process (0::int))\<lparr>generator := 896336333\<rparr>)
   \<and> fst (get_chaotic_value_call euler_odeint (initial_process (0::int)))
       = fst (get_chaotic_value_call euler_odeint ((initial_process (0::int))\<lparr>generator := 896336333\<rparr>))
   \<and> (\<exists>theta2. length theta2 = 1000
         \<and> fst (get_chaotic_value_call euler_odeint ((initial_process (0::int))\<lparr>generator := 896336333\<rparr>))
             = Inr (last theta2))"
proof -
  have a: "rtranclp (step lcg_prng) (initial_process (0::int)) (initial_process (0::int))" by simp
  have "generate_eurodreams_numbers lcg_prng (generator (initial_process (0::int))) 42
          = Inr (([3, 15, 16, 25, 28, 35], [3]), 896336333)"
    by (simp add: initial_process_def generate_lcg_42)
  then have "step lcg_prng (initial_process (0::int)) ((initial_process (0::int))\<lparr>generator := 896336333\<rparr>)"
    by (rule step.draws)
  then have b: "rtranclp (step lcg_prng) (initial_process (0::int))
                  ((initial_process (0::int))\<lparr>generator := 896336333\<rparr>)"
    by (rule r_into_rtranclp)
  show ?thesis
    using get_chaotic_value_call_constant [OF euler_contract a b] euler_contract a b
    by blast
qed

text \<open>
  C5 (as the code has it). The Integrator has no parameter check and no InvalidParameter
  error. Called with \<open>L1 = 0\<close> or \<open>m1 = 0\<close>, or with any other lengths and masses, and with a
  duration and a step that are positive doubles whose time grid is within the size limit of
  \<^verbatim>\<open>numpy.arange\<close>, it raises nothing and returns a Trajectory with one \<open>theta1\<close> and one
  \<open>theta2\<close> sample per grid time (samples may be non-finite). Called with a zero step it fails
  with ZeroDivisionError while the time grid is built, before any sampling. (Memory for the
  grid is taken to be available.)
\<close>

theorem simulate_double_pendulum_unvalidated:
  "(dt = 0 \<longrightarrow> simulate_double_pendulum od L1 L2 m1 m2 tmax dt y0 = Inl ZeroDivisionError)
   \<and> (odeint_contract od \<and> 0 < tmax \<and> 0 < dt \<and> is_double tmax \<and> is_double dt
        \<and> arange_length 0 tmax dt < 2 ^ 60 \<longrightarrow>
        (\<exists>ts theta1 theta2.
            arange 0 tmax dt = Inr ts \<and> ts \<noteq> []
          \<and> simulate_double_pendulum od L1 L2 m1 m2 tmax dt y0 = Inr (theta1, theta2)
          \<and> length theta1 = length ts \<and> length theta2 = length ts))"
proof (intro conjI impI)
  assume "dt = 0"
  then show "simulate_double_pendulum od L1 L2 m1 m2 tmax dt y0 = Inl ZeroDivisionError"
    by (simp add: simulate_double_pendulum_def arange_zero_step)
next
  assume a: "odeint_contract od \<and> 0 < tmax \<and> 0 < dt \<and> is_double tmax \<and> is_double dt
        \<and> arange_length 0 tmax dt < 2 ^ 60"
  then have h: "odeint_contract od" "0 < tmax" "0 < dt" "round_double tmax = tmax"
    "round_double dt = dt" "arange_length 0 tmax dt < 2 ^ 60"
    by (simp_all add: is_double_def)
  let ?ts = "map (grid_time dt) [0..<nat (arange_length 0 tmax dt)]"
  have ar: "arange 0 tmax dt = Inr ?ts" using h(2-6) by (rule arange_grid)
  have "0 < arange_length 0 tmax dt" using h(2,3,4) by (rule arange_length_pos(2))
  then have ne: "?ts \<noteq> []" by simp
  obtain theta1 theta2 where
    "simulate_double_pendulum od L1 L2 m1 m2 tmax dt y0 = Inr (theta1, theta2)"
    "length theta1 = nat (arange_length 0 tmax dt)" "length theta2 = nat (arange_length 0 tmax dt)"
    using get_chaotic_value_nonempty[OF h, of L1 L2 m1 m2 y0] by blast
  then show "\<exists>ts theta1 theta2.
            arange 0 tmax dt = Inr ts \<and> ts \<noteq> []
          \<and> simulate_double_pendulum od L1 L2 m1 m2 tmax dt y0 = Inr (theta1, theta2)
          \<and> length theta1 = length ts \<and> length theta2 = length ts"
    using ar ne by (intro exI[of _ ?ts] exI[of _ theta1] exI[of _ theta2]) simp
qed

theorem simulate_double_pendulum_unvalidated_witness:
  "simulate_double_pendulum euler_odeint 0 1 1 1 10 0 default_y0 = Inl ZeroDivisionError
   \<and> odeint_contract euler_odeint \<and> (0::real) < 10 \<and> 0 < dt_default
   \<and> is_double 10 \<and> is_double dt_default \<and> arange_length 0 10 dt_default < 2 ^ 60
   \<and> (\<exists>ts theta1 theta2.
          arange 0 10 dt_default = Inr ts \<and> length ts = 1000
        \<and> simulate_double_pendulum euler_odeint 0 1 0 1 10 dt_default default_y0 = Inr (theta1, theta2)
        \<and> length theta1 = 1000 \<and> length theta2 = 1000)"
proof -
  have h: "odeint_contract euler_odeint \<and> (0::real) < 10 \<and> 0 < dt_default
        \<and> is_double 10 \<and> is_double dt_default \<and> arange_length 0 10 dt_default < 2 ^ 60"
    by (simp add: euler_contract dt_default_pos is_double_10 is_double_dt_default default_length)
  have ar: "arange 0 10 dt_default = Inr (map (grid_time dt_default) [0..<1000])"
    using arange_grid[of 10 dt_default]
    by (simp add: dt_default_pos round_double_10 round_double_dt_default default_length)
  have z: "simulate_double_pendulum euler_odeint 0 1 1 1 10 0 default_y0 = Inl ZeroDivisionError"
    using simulate_double_pendulum_unvalidated [of 0 euler_odeint 0 1 1 1 10 default_y0] by simp
  obtain ts theta1 theta2 where
    "arange 0 10 dt_default = Inr ts"
    "simulate_double_pendulum euler_odeint 0 1 0 1 10 dt_default default_y0 = Inr (theta1, theta2)"
    "length theta1 = length ts" "length theta2 = length ts"
    using simulate_double_pendulum_unvalidated [of dt_default euler_odeint 0 1 0 1 10 default_y0] h
    by blast
  then show ?thesis using z h ar by auto
qed

text \<open>
  C5 as the specification states it fails: with \<open>L1 = 0\<close>, and with \<open>m1 = 0\<close>, and every other
  argument at its default, the Integrator raises nothing.
\<close>

theorem simulate_double_pendulum_zero_length_counterexample:
  "\<not> isl (simulate_double_pendulum euler_odeint 0 1 1 1 10 dt_default default_y0)
   \<and> \<not> isl (simulate_double_pendulum euler_odeint 1 1 0 1 10 dt_default default_y0)"
proof -
  have h: "(0::real) < 10" "0 < dt_default" "round_double 10 = 10"
    "round_double dt_default = dt_default" "arange_length 0 10 dt_default < 2 ^ 60"
    by (simp_all add: dt_default_pos round_double_10 round_double_dt_default default_length)
  have "\<exists>theta1 theta2. simulate_double_pendulum euler_odeint L1 1 m1 1 10 dt_default default_y0
          = Inr (theta1, theta2)" for L1 m1
    using get_chaotic_value_nonempty[OF euler_contract h, of L1 1 m1 1 default_y0]
    by auto
  from this[of 0 1] this[of 1 0] show ?thesis by auto
qed

text \<open>
  C6. With the token and the chaotic value fixed, the combined seed is an injective function
  of the time integer; a step of 1 in the time integer changes the seed; the 47 trial draws
  and the official draw of the main program get 48 pairwise distinct combined seeds.
\<close>

theorem create_combined_seed_injective:
  assumes "get_chaotic_value_default od = Inr (Some v)"
  shows "(create_combined_seed h od t1 w = create_combined_seed h od t2 w \<longleftrightarrow> t1 = t2)
       \<and> create_combined_seed h od (t + 1) w \<noteq> create_combined_seed h od t w
       \<and> distinct (trial_seeds h od base w @ [official_seed h od base w])
       \<and> length (trial_seeds h od base w @ [official_seed h od base w]) = 48
       \<and> (\<forall>x \<in> set (trial_seeds h od base w @ [official_seed h od base w]). \<not> isl x)"
proof -
  have eq: "create_combined_seed h od t w = Inr (h w + t + \<lfloor>\<bar>v\<bar> * 1000000\<rfloor>)" for t
    using create_combined_seed_finite[OF assms] .
  have all: "trial_seeds h od base w @ [official_seed h od base w]
      = map (\<lambda>i. create_combined_seed h od (base + int i) w) [0..<48]"
  proof -
    have "[0..<48] = [0..<47] @ [47::nat]"
      using upt_Suc_append[of 0 47] by simp
    then show ?thesis by (simp add: trial_seeds_def official_seed_def)
  qed
  have inj: "inj_on (\<lambda>i. create_combined_seed h od (base + int i) w) (set [0..<48])"
    by (rule inj_onI) (simp add: eq)
  have d: "distinct (trial_seeds h od base w @ [official_seed h od base w])"
    unfolding all using inj by (simp add: distinct_map)
  have l: "length (trial_seeds h od base w @ [official_seed h od base w]) = 48"
    unfolding all by simp
  have ok: "\<forall>x \<in> set (trial_seeds h od base w @ [official_seed h od base w]). \<not> isl x"
    unfolding all by (auto simp: eq)
  show ?thesis using d l ok by (simp add: eq)
qed

theorem create_combined_seed_injective_witness:
  "\<exists>v. get_chaotic_value_default euler_odeint = Inr (Some v)
     \<and> create_combined_seed (\<lambda>w. int (length w)) euler_odeint 101 ''20,50,0,clearsky''
         \<noteq> create_combined_seed (\<lambda>w. int (length w)) euler_odeint 100 ''20,50,0,clearsky''
     \<and> distinct (trial_seeds (\<lambda>w. int (length w)) euler_odeint 3142530123456 ''20,50,0,clearsky''
                  @ [official_seed (\<lambda>w. int (length w)) euler_odeint 3142530123456 ''20,50,0,clearsky''])"
proof -
  obtain v where v: "get_chaotic_value_default euler_odeint = Inr (Some v)"
    using euler_chaotic_finite by blast
  show ?thesis
    using v create_combined_seed_injective [OF v, of "\<lambda>w. int (length w)" 0 "''20,50,0,clearsky''" 0
        100 3142530123456]
    by auto
qed

text \<open>
  C7. In the Number Sampler the generator is seeded first; the draw of six numbers without
  replacement from \<open>{1, ..., 40}\<close> comes next and makes the first six calls of
  \<^verbatim>\<open>_randbelow\<close>, with the bounds 40, 39, 38, 37, 36, 35; the bonus draw is the seventh call,
  with the bound 5, on the state that the main draw has left.
\<close>

theorem generate_eurodreams_numbers_order:
  assumes "randbelow_ok r"
  shows "\<exists>picked.
           sample r [1..40] 6 (rng_seed r seed) =
             Inr (picked, run_randbelow (rng_randbelow r) [40, 39, 38, 37, 36, 35] (rng_seed r seed))
         \<and> generate_eurodreams_numbers r gs seed =
             Inr ((sort picked,
                   [1 + int (fst (rng_randbelow r 5
                       (run_randbelow (rng_randbelow r) [40, 39, 38, 37, 36, 35] (rng_seed r seed))))]),
                  snd (rng_randbelow r 5
                       (run_randbelow (rng_randbelow r) [40, 39, 38, 37, 36, 35] (rng_seed r seed))))"
  using generate_ok[OF assms, of seed gs] by blast

theorem generate_eurodreams_numbers_order_witness:
  "randbelow_ok lcg_prng
   \<and> (\<exists>picked.
           sample lcg_prng [1..40] 6 (rng_seed lcg_prng 42) =
             Inr (picked, run_randbelow (rng_randbelow lcg_prng) [40, 39, 38, 37, 36, 35] (rng_seed lcg_prng 42))
         \<and> generate_eurodreams_numbers lcg_prng 0 42 =
             Inr ((sort picked,
                   [1 + int (fst (rng_randbelow lcg_prng 5
                       (run_randbelow (rng_randbelow lcg_prng) [40, 39, 38, 37, 36, 35] (rng_seed lcg_prng 42))))]),
                  snd (rng_randbelow lcg_prng 5
                       (run_randbelow (rng_randbelow lcg_prng) [40, 39, 38, 37, 36, 35] (rng_seed lcg_prng 42)))))"
  using generate_eurodreams_numbers_order [OF lcg_randbelow_ok, of 42 0] lcg_randbelow_ok
  by blast

text \<open>
  C8 (as the code has it). For a duration and a step that are doubles with \<open>0 < dt < tmax\<close>
  and a time grid within the size limit of \<^verbatim>\<open>numpy.arange\<close>, the Trajectory is two sequences
  of equal length, one row of the solver's result per grid time. The grid has \<open>\<lceil>q\<rceil>\<close> times,
  where \<open>q\<close> is the quotient \<open>tmax / dt\<close> rounded to a double: they are 0, \<open>dt\<close> and, from
  index 2 on, the rounded products of the index and \<open>dt\<close>, in non-decreasing order. The
  defaults \<open>tmax = 10\<close>, \<open>dt = 0.01\<close> give 1000 samples. (Memory for the grid is taken to be
  available.)
\<close>

theorem simulate_double_pendulum_grid:
  assumes "odeint_contract od" "0 < tmax" "0 < dt" "dt < tmax"
    and "is_double tmax" "is_double dt" "arange_length 0 tmax dt < 2 ^ 60"
  shows "\<exists>ts sol theta1 theta2.
           arange 0 tmax dt = Inr ts
         \<and> int (length ts) = \<lceil>round_double (tmax / dt)\<rceil>
         \<and> ts = map (grid_time dt) [0..<length ts]
         \<and> 0 < length ts \<and> ts ! 0 = 0 \<and> sorted ts
         \<and> (tmax = 10 \<and> dt = dt_default \<longrightarrow> length ts = 1000)
         \<and> od (\<lambda>y t. deriv y t L1 L2 m1 m2) y0 ts = Inr sol
         \<and> simulate_double_pendulum od L1 L2 m1 m2 tmax dt y0 = Inr (theta1, theta2)
         \<and> theta1 = map fst sol \<and> theta2 = map (\<lambda>row. fst (snd (snd row))) sol
         \<and> length theta1 = length ts \<and> length theta2 = length ts"
proof -
  have h: "0 < tmax" "0 < dt" "round_double tmax = tmax" "round_double dt = dt"
    "arange_length 0 tmax dt < 2 ^ 60"
    using assms by (simp_all add: is_double_def)
  let ?n = "nat (arange_length 0 tmax dt)"
  let ?ts = "map (grid_time dt) [0..<?n]"
  have ar: "arange 0 tmax dt = Inr ?ts" using h by (rule arange_grid)
  have pos: "0 < arange_length 0 tmax dt" using h(1,2,3) by (rule arange_length_pos(2))
  have "round_double 1 \<le> round_double (tmax / dt)"
    using assms(3,4) by (intro round_double_mono) simp_all
  then have q1: "round_double (tmax / dt) \<noteq> 0" by (simp add: round_double_1)
  have len: "int (length ?ts) = \<lceil>round_double (tmax / dt)\<rceil>"
    using arange_length_pos(1)[OF h(1,2,3)] pos q1 by simp
  have self: "?ts = map (grid_time dt) [0..<length ?ts]" by simp
  have lpos: "0 < length ?ts" using pos by simp
  have first: "?ts ! 0 = 0" using pos by (simp add: grid_time_def)
  have so: "sorted ?ts" using h(2,4) by (rule grid_sorted)
  have dflt: "tmax = 10 \<and> dt = dt_default \<longrightarrow> length ?ts = 1000"
    by (auto simp: default_length)
  obtain sol :: "pstate list" where
    sol: "od (\<lambda>y t. deriv y t L1 L2 m1 m2) y0 ?ts = Inr sol"
    and sl: "length sol = ?n"
    and sim: "simulate_double_pendulum od L1 L2 m1 m2 tmax dt y0 =
                Inr (map fst sol, map (\<lambda>row. fst (snd (snd row))) sol)"
    using simulate_grid[OF assms(1) h, of L1 L2 m1 m2 y0] by blast
  have l1: "length (map fst sol) = length ?ts" using sl by simp
  have l2: "length (map (\<lambda>row. fst (snd (snd row))) sol) = length ?ts" using sl by simp
  show ?thesis
    apply (rule exI[of _ ?ts], rule exI[of _ sol])
    apply (rule exI[of _ "map fst sol"], rule exI[of _ "map (\<lambda>row. fst (snd (snd row))) sol"])
    apply (intro conjI)
    using ar len self lpos first so dflt sol sim l1 l2 by blast+
qed

theorem simulate_double_pendulum_grid_witness:
  "odeint_contract euler_odeint \<and> (0::real) < 10 \<and> 0 < dt_default \<and> dt_default < 10
   \<and> is_double 10 \<and> is_double dt_default \<and> arange_length 0 10 dt_default < 2 ^ 60
   \<and> (\<exists>ts theta1 theta2.
         arange 0 10 dt_default = Inr ts \<and> length ts = 1000 \<and> ts ! 0 = 0 \<and> sorted ts
       \<and> simulate_double_pendulum euler_odeint 1 1 1 1 10 dt_default default_y0 = Inr (theta1, theta2)
       \<and> length theta1 = 1000 \<and> length theta2 = 1000)"
proof -
  have h: "(0::real) < 10" "0 < dt_default" "dt_default < 10"
    "is_double 10" "is_double dt_default" "arange_length 0 10 dt_default < 2 ^ 60"
    by (simp_all add: dt_default_pos dt_default_less is_double_10 is_double_dt_default default_length)
  from simulate_double_pendulum_grid [OF euler_contract h, of 1 1 1 1 default_y0]
  obtain ts sol theta1 theta2 where
    "arange 0 10 dt_default = Inr ts" "ts ! 0 = 0" "sorted ts"
    "(10::real) = 10 \<and> dt_default = dt_default \<longrightarrow> length ts = 1000"
    "simulate_double_pendulum euler_odeint 1 1 1 1 10 dt_default default_y0 = Inr (theta1, theta2)"
    "length theta1 = length ts" "length theta2 = length ts"
    by blast
  then show ?thesis using euler_contract h by auto
qed

text \<open>
  C8 as the specification states it fails: the grid is not always the multiples of \<open>dt\<close>
  strictly below \<open>tmax\<close>. With \<open>tmax = 0.07\<close> and \<open>dt = 0.01\<close> (the doubles that the literals
  denote, \<open>0 < dt < tmax\<close>) the quotient rounds to a double above 7, the grid has 8 times, and
  the last is \<open>tmax\<close> itself; the Trajectory has 8 samples.
\<close>

theorem simulate_double_pendulum_grid_counterexample:
  "(0::real) < dt_default \<and> dt_default < 1261007895663739 / 2 ^ 54
   \<and> map_sum id length (arange 0 (1261007895663739 / 2 ^ 54) dt_default) = Inr 8
   \<and> map_sum id last (arange 0 (1261007895663739 / 2 ^ 54) dt_default)
       = Inr (1261007895663739 / 2 ^ 54)
   \<and> map_sum id (length \<circ> snd)
       (simulate_double_pendulum euler_odeint 1 1 1 1 (1261007895663739 / 2 ^ 54) dt_default default_y0)
       = Inr 8"
proof -
  let ?tmax = "1261007895663739 / 2 ^ 54 :: real"
  have p: "0 < ?tmax" by simp
  have "arange_length 0 ?tmax dt_default =
          (if round_double (?tmax / dt_default) = 0 then 1 else \<lceil>round_double (?tmax / dt_default)\<rceil>)"
    by (rule arange_length_pos(1)[OF p dt_default_pos round_double_007])
  then have len: "arange_length 0 ?tmax dt_default = 8"
    unfolding round_double_quot_007 by simp
  have ar: "arange 0 ?tmax dt_default = Inr (map (grid_time dt_default) [0..<8])"
    using arange_grid[OF p dt_default_pos round_double_007 round_double_dt_default] len by simp
  have "[0..<8] = [0..<7] @ [7::nat]"
    using upt_Suc_append[of 0 7] by simp
  then have "last (map (grid_time dt_default) [0..<8]) = grid_time dt_default 7" by simp
  also have "\<dots> = round_double (round_double (7 * dt_default))"
    by (simp add: grid_time_def round_double_7)
  also have "\<dots> = ?tmax"
    by (simp only: round_double_7_dt round_double_007)
  finally have la: "last (map (grid_time dt_default) [0..<8]) = ?tmax" .
  obtain theta1 theta2 where
    "simulate_double_pendulum euler_odeint 1 1 1 1 ?tmax dt_default default_y0 = Inr (theta1, theta2)"
    "length theta2 = nat (arange_length 0 ?tmax dt_default)"
    using get_chaotic_value_nonempty[OF euler_contract p dt_default_pos round_double_007
        round_double_dt_default, of 1 1 1 1 default_y0] len
    by auto
  then have sim: "map_sum id (length \<circ> snd)
       (simulate_double_pendulum euler_odeint 1 1 1 1 ?tmax dt_default default_y0) = Inr 8"
    using len by simp
  have lt: "dt_default < ?tmax" by (simp add: dt_default_def)
  show ?thesis using dt_default_pos lt ar la sim by simp
qed

text \<open>
  C9. \<open>generate_eurodreams_numbers\<close> returns a pair of lists: the six main numbers and the
  bonus number wrapped in a list of length exactly 1.
\<close>

theorem generate_eurodreams_numbers_shape:
  assumes "randbelow_ok r"
  shows "\<exists>main_numbers bonus_numbers gs'.
           generate_eurodreams_numbers r gs seed = Inr ((main_numbers, bonus_numbers), gs')
         \<and> length main_numbers = 6 \<and> length bonus_numbers = 1"
proof -
  obtain picked where "length picked = 6"
    and "\<exists>b gs'. generate_eurodreams_numbers r gs seed = Inr ((sort picked, [b]), gs')"
    using generate_ok[OF assms, of seed gs] by blast
  then show ?thesis by auto
qed

theorem generate_eurodreams_numbers_shape_witness:
  "randbelow_ok lcg_prng
   \<and> (\<exists>main_numbers bonus_numbers gs'.
           generate_eurodreams_numbers lcg_prng 7 2025 = Inr ((main_numbers, bonus_numbers), gs')
         \<and> length main_numbers = 6 \<and> length bonus_numbers = 1)"
  using generate_eurodreams_numbers_shape [OF lcg_randbelow_ok, of 7 2025] lcg_randbelow_ok
  by blast

text \<open>
  C10 (as the code has it). For a duration and a step that are positive doubles: when the
  length of the time grid is below the size limit of \<^verbatim>\<open>numpy.arange\<close>, the grid is not empty
  and starts at 0, so the \<open>theta2\<close> sequence is not empty and the Chaos Extractor returns its
  last sample; when it is not, \<^verbatim>\<open>numpy.arange\<close> raises ValueError and no grid exists. An empty
  grid is never built, and the extractor's subscript \<^verbatim>\<open>[-1]\<close> never fails. (Memory for the grid
  is taken to be available.)
\<close>

theorem time_grid_nonempty:
  assumes "odeint_contract od" "0 < tmax" "0 < dt" "is_double tmax" "is_double dt"
  shows "(2 ^ 60 \<le> arange_length 0 tmax dt \<longrightarrow>
            arange 0 tmax dt = Inl ValueError
          \<and> get_chaotic_value_from_pendulum od L1 L2 m1 m2 tmax dt y0 = Inl ValueError)
       \<and> (arange_length 0 tmax dt < 2 ^ 60 \<longrightarrow>
            (\<exists>ts theta1 theta2.
                arange 0 tmax dt = Inr ts \<and> ts \<noteq> [] \<and> hd ts = 0 \<and> 0 \<in> set ts
              \<and> length ts = nat (arange_length 0 tmax dt)
              \<and> simulate_double_pendulum od L1 L2 m1 m2 tmax dt y0 = Inr (theta1, theta2)
              \<and> length theta2 = length ts \<and> theta2 \<noteq> []
              \<and> get_chaotic_value_from_pendulum od L1 L2 m1 m2 tmax dt y0 = Inr (last theta2)))
       \<and> arange 0 tmax dt \<noteq> Inr []
       \<and> get_chaotic_value_from_pendulum od L1 L2 m1 m2 tmax dt y0 \<noteq> Inl IndexError"
proof -
  have h: "0 < tmax" "0 < dt" "round_double tmax = tmax" "round_double dt = dt"
    using assms by (simp_all add: is_double_def)
  have pos: "0 < arange_length 0 tmax dt" using h(1,2,3) by (rule arange_length_pos(2))
  have big: "arange 0 tmax dt = Inl ValueError
          \<and> get_chaotic_value_from_pendulum od L1 L2 m1 m2 tmax dt y0 = Inl ValueError"
    if "2 ^ 60 \<le> arange_length 0 tmax dt"
    using arange_oversize[OF h(2) that]
    by (simp add: get_chaotic_value_from_pendulum_def simulate_double_pendulum_def)
  have small: "\<exists>ts theta1 theta2.
                arange 0 tmax dt = Inr ts \<and> ts \<noteq> [] \<and> hd ts = 0 \<and> 0 \<in> set ts
              \<and> length ts = nat (arange_length 0 tmax dt)
              \<and> simulate_double_pendulum od L1 L2 m1 m2 tmax dt y0 = Inr (theta1, theta2)
              \<and> length theta2 = length ts \<and> theta2 \<noteq> []
              \<and> get_chaotic_value_from_pendulum od L1 L2 m1 m2 tmax dt y0 = Inr (last theta2)"
    if lt: "arange_length 0 tmax dt < 2 ^ 60"
  proof -
    let ?n = "nat (arange_length 0 tmax dt)"
    let ?ts = "map (grid_time dt) [0..<?n]"
    have ar: "arange 0 tmax dt = Inr ?ts" using h lt by (rule arange_grid)
    have n: "0 < ?n" using pos by simp
    then have ne: "?ts \<noteq> []" by simp
    have "[0..<?n] = 0 # [1..<?n]" using n by (simp add: upt_rec)
    then have hd0: "hd ?ts = 0" by (simp add: grid_time_def)
    then have mem: "0 \<in> set ?ts" using ne by (metis hd_in_set)
    obtain theta1 theta2 where
      "simulate_double_pendulum od L1 L2 m1 m2 tmax dt y0 = Inr (theta1, theta2)"
      "length theta2 = ?n" "theta2 \<noteq> []"
      "get_chaotic_value_from_pendulum od L1 L2 m1 m2 tmax dt y0 = Inr (last theta2)"
      using get_chaotic_value_nonempty[OF assms(1) h lt, of L1 L2 m1 m2 y0] by blast
    then show ?thesis using ar ne hd0 mem
      by (intro exI[of _ ?ts] exI[of _ theta1] exI[of _ theta2]) simp
  qed
  have never: "arange 0 tmax dt \<noteq> Inr []" using h(1,2,3) by (rule arange_never_empty)
  have noidx: "get_chaotic_value_from_pendulum od L1 L2 m1 m2 tmax dt y0 \<noteq> Inl IndexError"
  proof (cases "2 ^ 60 \<le> arange_length 0 tmax dt")
    case True
    then show ?thesis using big by simp
  next
    case False
    then have "arange_length 0 tmax dt < 2 ^ 60" by simp
    from small[OF this] show ?thesis by auto
  qed
  show ?thesis using big small never noidx by blast
qed

theorem time_grid_nonempty_witness:
  "odeint_contract euler_odeint \<and> (0::real) < 10 \<and> (0::real) < 1298074214633707 / 2 ^ 110 \<and> 0 < dt_default
   \<and> is_double 10 \<and> is_double (1298074214633707 / 2 ^ 110) \<and> is_double dt_default
   \<and> 2 ^ 60 \<le> arange_length 0 10 (1298074214633707 / 2 ^ 110)
   \<and> get_chaotic_value_from_pendulum euler_odeint 1 1 1 1 10 (1298074214633707 / 2 ^ 110) default_y0 = Inl ValueError
   \<and> arange_length 0 10 dt_default < 2 ^ 60
   \<and> (\<exists>ts theta1 theta2.
           arange 0 10 dt_default = Inr ts \<and> length ts = 1000 \<and> hd ts = 0
         \<and> simulate_double_pendulum euler_odeint 1 1 1 1 10 dt_default default_y0 = Inr (theta1, theta2)
         \<and> length theta2 = 1000
         \<and> get_chaotic_value_from_pendulum euler_odeint 1 1 1 1 10 dt_default default_y0
             = Inr (last theta2))"
proof -
  have h: "(0::real) < 10" "(0::real) < 1298074214633707 / 2 ^ 110" "0 < dt_default"
    "is_double 10" "is_double (1298074214633707 / 2 ^ 110)" "is_double dt_default"
    using dt_default_pos is_double_10 is_double_tiny is_double_dt_default by simp_all
  have big: "2 ^ 60 \<le> arange_length 0 10 (1298074214633707 / 2 ^ 110)" unfolding oversize_length by simp
  have small: "arange_length 0 10 dt_default < 2 ^ 60" by (simp add: default_length)
  have a: "get_chaotic_value_from_pendulum euler_odeint 1 1 1 1 10 (1298074214633707 / 2 ^ 110) default_y0 = Inl ValueError"
    using time_grid_nonempty [OF euler_contract h(1,2,4,5), of 1 1 1 1 default_y0] big by blast
  obtain ts theta1 theta2 where
    "arange 0 10 dt_default = Inr ts" "hd ts = 0" "length ts = nat (arange_length 0 10 dt_default)"
    "simulate_double_pendulum euler_odeint 1 1 1 1 10 dt_default default_y0 = Inr (theta1, theta2)"
    "length theta2 = length ts"
    "get_chaotic_value_from_pendulum euler_odeint 1 1 1 1 10 dt_default default_y0 = Inr (last theta2)"
    using time_grid_nonempty [OF euler_contract h(1,3,4,6), of 1 1 1 1 default_y0] small by blast
  then show ?thesis using euler_contract h big small a by (auto simp: default_length)
qed

text \<open>
  C10 as the specification states it fails: with \<open>tmax = 10\<close> and the positive step
  \<open>dt = 1e-18\<close> (the double that the literal denotes) the length of the grid, \<open>10 ^ 19\<close>, is
  above the size limit, no grid is built, and the extractor raises ValueError instead of
  returning a last sample.
\<close>

theorem time_grid_oversize_counterexample:
  "(0::real) < 10 \<and> (0::real) < 1298074214633707 / 2 ^ 110
   \<and> arange 0 10 (1298074214633707 / 2 ^ 110) = Inl ValueError
   \<and> get_chaotic_value_from_pendulum euler_odeint 1 1 1 1 10 (1298074214633707 / 2 ^ 110) default_y0 = Inl ValueError"
proof -
  have "(0::real) < 1298074214633707 / 2 ^ 110" by simp
  moreover have "2 ^ 60 \<le> arange_length 0 10 (1298074214633707 / 2 ^ 110)" unfolding oversize_length by simp
  ultimately have "arange 0 10 (1298074214633707 / 2 ^ 110) = Inl ValueError" by (rule arange_oversize)
  then show ?thesis
    by (simp add: get_chaotic_value_from_pendulum_def simulate_double_pendulum_def)
qed

end
